theory Spec2Isabelle
  imports Main "HOL-Library.Multiset"
begin

section \<open>Day One export to Markdown: the conversion pipeline of \<open>src/main.js\<close>\<close>

text \<open>
  The program reads a Day One export (a \<open>Journal.json\<close> document, or a zip archive that
  holds one), sorts the journal entries by date and renders them as one Markdown text.
  The theory embeds the functions of \<open>src/main.js\<close> one by one, under their own names,
  and settles the properties that the specification states about them.

  A JavaScript string is a sequence of UTF-16 code units. The model has \<open>string\<close>:
  one \<open>char\<close> is one code unit, and the code units of the model are those below 256
  (the ISO-8859-1 range). The length of a string counts code units, as \<open>.length\<close> does.
\<close>

subsection \<open>String operations of the host\<close>

text \<open>
  \<open>String.prototype.trim\<close> removes white space and line terminators at both ends. Of
  the code units below 256 these are TAB, LF, VT, FF, CR, SP and NBSP.
\<close>

definition is_white :: "char \<Rightarrow> bool" where
  "is_white c \<longleftrightarrow> c \<in> {CHR 0x09, CHR 0x0A, CHR 0x0B, CHR 0x0C, CHR 0x0D, CHR 0x20, CHR 0xA0}"

definition trim :: "string \<Rightarrow> string" where
  "trim s = rev (dropWhile is_white (rev (dropWhile is_white s)))"

text \<open>
  \<open>String.prototype.toLowerCase\<close>: below 256 the letters with a lower-case partner are
  A to Z and the Latin-1 capitals 0xC0 to 0xDE without the multiplication sign 0xD7; the
  partner is 32 code units further.
\<close>

definition lower_char :: "char \<Rightarrow> char" where
  "lower_char c =
     (let n = (of_char c :: nat)
      in if (0x41 \<le> n \<and> n \<le> 0x5A) \<or> (0xC0 \<le> n \<and> n \<le> 0xDE \<and> n \<noteq> 0xD7)
         then char_of (n + 32) else c)"

definition toLowerCase :: "string \<Rightarrow> string" where
  "toLowerCase s = map lower_char s"

text \<open>\<open>s.endsWith(t)\<close>: the last \<open>t.length\<close> code units of \<open>s\<close> are \<open>t\<close>.\<close>

definition endsWith :: "string \<Rightarrow> string \<Rightarrow> bool" where
  "endsWith s t \<longleftrightarrow> length t \<le> length s \<and> drop (length s - length t) s = t"

text \<open>\<open>Array.prototype.join\<close> on an array of strings.\<close>

fun join :: "string \<Rightarrow> string list \<Rightarrow> string" where
  "join sep [] = []"
| "join sep [x] = x"
| "join sep (x # y # ys) = x @ sep @ join sep (y # ys)"

text \<open>\<open>String(n)\<close> for an integral number: the decimal digits, with a minus sign below zero.\<close>

definition digit_char :: "nat \<Rightarrow> char" where
  "digit_char d = ''0123456789'' ! d"

fun digits :: "nat \<Rightarrow> string" where
  "digits n = (if n < 10 then [digit_char n] else digits (n div 10) @ [digit_char (n mod 10)])"

declare digits.simps [simp del]

definition String_of :: "int \<Rightarrow> string" where
  "String_of i = (if i < 0 then CHR ''-'' # digits (nat (- i)) else digits (nat i))"

text \<open>\<open>s.padStart(n, "0")\<close>.\<close>

definition padStart0 :: "nat \<Rightarrow> string \<Rightarrow> string" where
  "padStart0 n s = replicate (n - length s) (CHR ''0'') @ s"

subsection \<open>Documents: the values that \<open>JSON.parse\<close> returns\<close>

text \<open>
  A parsed document is null, a boolean, a number, a string, an array or an object. An
  object lists its members in document order; where a key occurs twice the later member
  is the property, as in \<open>JSON.parse\<close>. The numbers of a document play one part in this
  program, whether a date field that holds one is truthy, and the model has the integral
  ones.

  \<open>undefined\<close> is no value of a document. An expression of the program that may be
  \<open>undefined\<close> has type \<open>json option\<close>, with \<open>None\<close> for \<open>undefined\<close>.
\<close>

datatype json =
    JNull
  | JBool bool
  | JNum int
  | JStr string
  | JArr "json list"
  | JObj "(string \<times> json) list"

type_synonym jsval = "json option"

text \<open>
  \<open>v?.k\<close>: \<open>undefined\<close> when \<open>v\<close> is null, the property otherwise. The program reads
  the six names \<open>entries\<close>, \<open>creationDate\<close>, \<open>modifiedDate\<close>, \<open>text\<close>, \<open>richText\<close> and
  \<open>contents\<close>. Booleans, numbers, strings and arrays have no property of these names,
  but for the method \<open>entries\<close> of an array, which the one place that reads it
  (\<open>Array.isArray(journal?.entries)\<close>) treats as it treats \<open>undefined\<close>.
\<close>

fun prop_of :: "json \<Rightarrow> string \<Rightarrow> jsval" where
  "prop_of (JObj kvs) k = map_of (rev kvs) k"
| "prop_of _ k = None"

text \<open>Truthiness, and \<open>a || b\<close>.\<close>

fun truthy :: "jsval \<Rightarrow> bool" where
  "truthy None = False"
| "truthy (Some JNull) = False"
| "truthy (Some (JBool b)) = b"
| "truthy (Some (JNum n)) = (n \<noteq> 0)"
| "truthy (Some (JStr s)) = (s \<noteq> [])"
| "truthy (Some (JArr _)) = True"
| "truthy (Some (JObj _)) = True"

definition or_js :: "jsval \<Rightarrow> jsval \<Rightarrow> jsval" where
  "or_js a b = (if truthy a then a else b)"

subsection \<open>Exceptions\<close>

text \<open>
  What a conversion can throw: an \<open>Error\<close> that the program itself creates, the
  \<open>SyntaxError\<close> of \<open>JSON.parse\<close>, the \<open>TypeError\<close> of reading a property of null, and
  the error with which the zip library rejects an archive or a stream, and the error with
  which reading the file fails. Each carries its message. A function that can throw
  returns \<open>exn + 'a\<close>.
\<close>

datatype exn =
    Error string
  | SyntaxError string
  | TypeError string
  | ZipError string
  | ReadError string

fun message :: "exn \<Rightarrow> string" where
  "message (Error m) = m"
| "message (SyntaxError m) = m"
| "message (TypeError m) = m"
| "message (ZipError m) = m"
| "message (ReadError m) = m"

subsection \<open>The host\<close>

text \<open>
  The functions of the JavaScript engine whose results the language standard leaves to
  the engine, or which are too large to embed, are parameters of the model:
  \<^item> \<open>Date_parse h v\<close> is \<open>Date.parse(v)\<close>, a time value in milliseconds since the
    epoch, or \<open>None\<close> for \<open>NaN\<close>;
  \<^item> \<open>Date_new h v\<close> is the time value of \<open>new Date(v)\<close>, or \<open>None\<close> for an invalid date;
  \<^item> \<open>JSON_parse h s\<close> is \<open>JSON.parse(s)\<close>, or the message of the \<open>SyntaxError\<close>;
  \<^item> \<open>null_read h k\<close> is the message of the \<open>TypeError\<close> for reading property \<open>k\<close> of
    null;
  \<^item> \<open>cannot_convert h\<close> is the message of the \<open>TypeError\<close> for a value that cannot be
    converted to a primitive value.
  \<open>Date_parse\<close> and \<open>Date_new\<close> are asked only about values that can be converted.
\<close>

record host =
  Date_parse :: "jsval \<Rightarrow> int option"
  Date_new :: "jsval \<Rightarrow> int option"
  JSON_parse :: "string \<Rightarrow> string + json"
  null_read :: "string \<Rightarrow> string"
  cannot_convert :: string

text \<open>\<open>v.k\<close>: throws on null, reads the property otherwise.\<close>

definition get :: "host \<Rightarrow> json \<Rightarrow> string \<Rightarrow> exn + jsval" where
  "get h v k = (if v = JNull then Inl (TypeError (null_read h k)) else Inr (prop_of v k))"

text \<open>
  \<open>Date.parse(v)\<close> converts \<open>v\<close> to a string, and \<open>new Date(v)\<close> converts \<open>v\<close> to a
  primitive value. For a value of a document both conversions fail on the same values,
  with a \<open>TypeError\<close>. An object is converted by its method \<open>toString\<close>; an object of
  a document inherits one, which answers \<open>[object Object]\<close>, unless it has a member
  \<open>toString\<close> of its own: that member is a value of the document and no function, the
  inherited \<open>valueOf\<close> answers the object itself, and the conversion throws. An array
  is converted by joining the conversions of its elements (null counts as the empty
  string), so it throws when one of its elements does. Null, booleans, numbers and
  strings are converted without an exception.
\<close>

fun unconvertible :: "json \<Rightarrow> bool" where
  "unconvertible (JObj kvs) = (''toString'' \<in> set (map fst kvs))"
| "unconvertible (JArr xs) = list_ex unconvertible xs"
| "unconvertible _ = False"

fun date_throws :: "jsval \<Rightarrow> bool" where
  "date_throws None = False"
| "date_throws (Some j) = unconvertible j"

definition Date_parse_js :: "host \<Rightarrow> jsval \<Rightarrow> exn + int option" where
  "Date_parse_js h v =
     (if date_throws v then Inl (TypeError (cannot_convert h)) else Inr (Date_parse h v))"

definition Date_new_js :: "host \<Rightarrow> jsval \<Rightarrow> exn + int option" where
  "Date_new_js h v =
     (if date_throws v then Inl (TypeError (cannot_convert h)) else Inr (Date_new h v))"

subsection \<open>Date fields in UTC\<close>

text \<open>
  The getters \<open>getUTCFullYear\<close>, \<open>getUTCMonth\<close>, \<open>getUTCDate\<close>, \<open>getUTCHours\<close>,
  \<open>getUTCMinutes\<close> and \<open>getUTCSeconds\<close> of a valid date with time value \<open>t\<close>. The
  standard fixes them by arithmetic on \<open>t\<close> in the proleptic Gregorian calendar; the
  day count is turned into year, month and day by the usual era computation (a 400 year
  era has 146097 days and starts on 1 March).
\<close>

definition civil_from_days :: "int \<Rightarrow> int \<times> int \<times> int" where
  "civil_from_days z0 =
     (let z = z0 + 719468;
          era = z div 146097;
          doe = z mod 146097;
          yoe = (doe - doe div 1460 + doe div 36524 - doe div 146096) div 365;
          doy = doe - (365 * yoe + yoe div 4 - yoe div 100);
          mp = (5 * doy + 2) div 153;
          d = doy - (153 * mp + 2) div 5 + 1;
          m = (if mp < 10 then mp + 3 else mp - 9);
          y = yoe + era * 400 + (if m \<le> 2 then 1 else 0)
      in (y, m, d))"

definition getUTCFullYear :: "int \<Rightarrow> int" where
  "getUTCFullYear t = fst (civil_from_days (t div 86400000))"

definition getUTCMonth :: "int \<Rightarrow> int" where
  "getUTCMonth t = fst (snd (civil_from_days (t div 86400000))) - 1"

definition getUTCDate :: "int \<Rightarrow> int" where
  "getUTCDate t = snd (snd (civil_from_days (t div 86400000)))"

definition getUTCHours :: "int \<Rightarrow> int" where
  "getUTCHours t = (t div 3600000) mod 24"

definition getUTCMinutes :: "int \<Rightarrow> int" where
  "getUTCMinutes t = (t div 60000) mod 60"

definition getUTCSeconds :: "int \<Rightarrow> int" where
  "getUTCSeconds t = (t div 1000) mod 60"

subsection \<open>\<open>Array.prototype.sort\<close>\<close>

text \<open>
  The standard requires \<open>sort\<close> to be stable, and with a consistent comparison function
  the result is the one stable sorted arrangement of the elements. The model computes it
  by insertion: an element goes in front of the first element that it does not compare
  greater than. When the comparison function throws, the sort ends with that exception.
  An array of fewer than two elements is returned without a comparison; of an array of
  two or more elements every element is passed to the comparison function, in an order
  that is the engine's choice and here the order of the insertions. (The elements of the
  arrays sorted here are never \<open>undefined\<close>, which \<open>sort\<close> would move to the end
  unasked; and \<open>sort\<close> works in place, on an array that the program has just created.)
\<close>

fun insert_by :: "('a \<Rightarrow> 'a \<Rightarrow> exn + int) \<Rightarrow> 'a \<Rightarrow> 'a list \<Rightarrow> exn + 'a list" where
  "insert_by cmp x [] = Inr [x]"
| "insert_by cmp x (y # ys) =
     (case cmp x y of
        Inl e \<Rightarrow> Inl e
      | Inr c \<Rightarrow>
          if c \<le> 0 then Inr (x # y # ys)
          else (case insert_by cmp x ys of Inl e \<Rightarrow> Inl e | Inr zs \<Rightarrow> Inr (y # zs)))"

fun array_sort :: "('a \<Rightarrow> 'a \<Rightarrow> exn + int) \<Rightarrow> 'a list \<Rightarrow> exn + 'a list" where
  "array_sort cmp [] = Inr []"
| "array_sort cmp (x # xs) =
     (case array_sort cmp xs of Inl e \<Rightarrow> Inl e | Inr sorted_xs \<Rightarrow> insert_by cmp x sorted_xs)"

subsection \<open>Text of an entry\<close>

text \<open>\<open>cleanupText\<close>: \<open>text.replace(/\\([.-])/g, "$1")\<close>. The scan goes from left to
  right; a backslash followed by a period or a hyphen is a match, the match is replaced
  by the period or hyphen, and the scan goes on behind the match.\<close>

fun cleanupText :: "string \<Rightarrow> string" where
  "cleanupText [] = []"
| "cleanupText [a] = [a]"
| "cleanupText (a # b # cs) =
     (if a = CHR 0x5C \<and> (b = CHR ''.'' \<or> b = CHR ''-'') then b # cleanupText cs
      else a # cleanupText (b # cs))"

text \<open>The function of the \<open>map\<close> in \<open>getEntryText\<close>:
  \<open>(part) => (typeof part?.text === "string" ? part.text : "")\<close>.\<close>

definition part_text :: "json \<Rightarrow> string" where
  "part_text part = (case prop_of part ''text'' of Some (JStr s) \<Rightarrow> s | _ \<Rightarrow> [])"

definition getEntryText :: "host \<Rightarrow> json \<Rightarrow> string" where
  "getEntryText h entry =
     (let text = (case prop_of entry ''text'' of Some (JStr s) \<Rightarrow> s | _ \<Rightarrow> [])
      in if trim text \<noteq> [] then cleanupText (trim text)
         else
           (case prop_of entry ''richText'' of
              Some (JStr richText) \<Rightarrow>
                if trim richText \<noteq> [] then
                  (case JSON_parse h richText of
                     Inl _ \<Rightarrow> ''[No content]''
                   | Inr parsed \<Rightarrow>
                       (let chunks =
                          (case prop_of parsed ''contents'' of
                             Some (JArr contents) \<Rightarrow> trim (concat (map part_text contents))
                           | _ \<Rightarrow> [])
                        in if chunks \<noteq> [] then cleanupText chunks else ''[No content]''))
                else ''[No content]''
            | _ \<Rightarrow> ''[No content]''))"

subsection \<open>Dates of an entry\<close>

definition pad :: "int \<Rightarrow> string" where
  "pad v = padStart0 2 (String_of v)"

text \<open>The lines 194 to 200 of \<open>formatTimestamp\<close>: the fields of a valid date with time
  value \<open>t\<close>, put together.\<close>

definition format_utc :: "int \<Rightarrow> string" where
  "format_utc t =
     (let year = getUTCFullYear t;
          month = pad (getUTCMonth t + 1);
          day = pad (getUTCDate t);
          hour = pad (getUTCHours t);
          minute = pad (getUTCMinutes t);
          second = pad (getUTCSeconds t)
      in String_of year @ ''-'' @ month @ ''-'' @ day @ '' '' @ hour @ ''-'' @ minute
           @ ''-'' @ second)"

definition formatTimestamp :: "host \<Rightarrow> jsval \<Rightarrow> exn + string" where
  "formatTimestamp h v =
     (case (if truthy v then Date_new_js h v else Inr (Some 0)) of
        Inl e \<Rightarrow> Inl e
      | Inr None \<Rightarrow> Inr ''1970-01-01 00-00-00''
      | Inr (Some t) \<Rightarrow> Inr (format_utc t))"

definition parseDate :: "host \<Rightarrow> json \<Rightarrow> exn + int" where
  "parseDate h entry =
     (let raw = or_js (or_js (prop_of entry ''creationDate'') (prop_of entry ''modifiedDate''))
                  (Some (JStr []))
      in case Date_parse_js h raw of
           Inl e \<Rightarrow> Inl e
         | Inr None \<Rightarrow> Inr 0
         | Inr (Some t) \<Rightarrow> Inr t)"

text \<open>The comparison function of \<open>sortEntries\<close>, \<open>(a, b) => parseDate(a) - parseDate(b)\<close>:
  \<open>parseDate(a)\<close> is evaluated first.\<close>

definition compare_dates :: "host \<Rightarrow> json \<Rightarrow> json \<Rightarrow> exn + int" where
  "compare_dates h a b =
     (case parseDate h a of
        Inl e \<Rightarrow> Inl e
      | Inr x \<Rightarrow> (case parseDate h b of Inl e \<Rightarrow> Inl e | Inr y \<Rightarrow> Inr (x - y)))"

definition sortEntries :: "host \<Rightarrow> json list \<Rightarrow> exn + json list" where
  "sortEntries h entries = array_sort (compare_dates h) entries"

subsection \<open>Rendering\<close>

text \<open>A \<open>map\<close> whose function can throw: the first element that throws ends it.\<close>

fun map_exn :: "('a \<Rightarrow> exn + 'b) \<Rightarrow> 'a list \<Rightarrow> exn + 'b list" where
  "map_exn f [] = Inr []"
| "map_exn f (x # xs) =
     (case f x of
        Inl e \<Rightarrow> Inl e
      | Inr y \<Rightarrow> (case map_exn f xs of Inl e \<Rightarrow> Inl e | Inr ys \<Rightarrow> Inr (y # ys)))"

text \<open>The function of the \<open>map\<close> in \<open>toMarkdown\<close>. It reads \<open>entry.creationDate\<close> and
  \<open>entry.modifiedDate\<close> without the \<open>?.\<close> that \<open>parseDate\<close> and \<open>getEntryText\<close> have.\<close>

definition section_of :: "host \<Rightarrow> json \<Rightarrow> exn + string" where
  "section_of h entry =
     (case get h entry ''creationDate'' of
        Inl e \<Rightarrow> Inl e
      | Inr c \<Rightarrow>
          (case (if truthy c then Inr c else get h entry ''modifiedDate'') of
             Inl e \<Rightarrow> Inl e
           | Inr v \<Rightarrow>
               (case formatTimestamp h v of
                  Inl e \<Rightarrow> Inl e
                | Inr title \<Rightarrow>
                    (let body = getEntryText h entry
                     in Inr (trim (''# '' @ title @ [CHR 0x0A, CHR 0x0A] @ body))))))"

definition separator :: string where
  "separator = [CHR 0x0A, CHR 0x0A] @ ''---'' @ [CHR 0x0A, CHR 0x0A]"

definition sections :: "host \<Rightarrow> json list \<Rightarrow> exn + string list" where
  "sections h entries =
     (case sortEntries h entries of
        Inl e \<Rightarrow> Inl e
      | Inr sorted_entries \<Rightarrow> map_exn (section_of h) sorted_entries)"

definition toMarkdown :: "host \<Rightarrow> json list \<Rightarrow> exn + string" where
  "toMarkdown h entries =
     (case sections h entries of Inl e \<Rightarrow> Inl e | Inr ss \<Rightarrow> Inr (join separator ss))"

subsection \<open>Files and archives\<close>

text \<open>
  A file has a name; \<open>file_text\<close> is the outcome of \<open>file.text()\<close>, the message of
  the rejection or the text; and \<open>file_zip\<close> is the outcome of
  \<open>JSZip.loadAsync(file)\<close>: the message of the rejection, or the streams of the archive
  in the order of \<open>Object.keys(zip.files)\<close>, each with its name and with what
  \<open>async("text")\<close> gives for it (the message of a rejection, or the text).
\<close>

record js_file =
  file_name :: string
  file_text :: "string + string"
  file_zip :: "string + (string \<times> (string + string)) list"

text \<open>The loop of \<open>parseJournalFromZip\<close> over the names, and the sort of its result.\<close>

definition candidates_of :: "string list \<Rightarrow> string list" where
  "candidates_of names =
     filter (\<lambda>fileName. endsWith (toLowerCase fileName) ''journal.json'') names"

definition sort_candidates :: "string list \<Rightarrow> exn + string list" where
  "sort_candidates candidates =
     array_sort (\<lambda>a b. Inr (int (length a) - int (length b))) candidates"

text \<open>\<open>zip.files[name].async("text")\<close> and \<open>JSON.parse\<close> of the text.\<close>

definition read_journal ::
  "host \<Rightarrow> (string \<times> (string + string)) list \<Rightarrow> string \<Rightarrow> exn + json" where
  "read_journal h files n =
     (case map_of files n of
        None \<Rightarrow> Inl (TypeError (null_read h ''async''))
      | Some (Inl m) \<Rightarrow> Inl (ZipError m)
      | Some (Inr text) \<Rightarrow>
          (case JSON_parse h text of Inl m \<Rightarrow> Inl (SyntaxError m) | Inr j \<Rightarrow> Inr j))"

definition parseJournalFromZip :: "host \<Rightarrow> js_file \<Rightarrow> exn + json" where
  "parseJournalFromZip h f =
     (case file_zip f of
        Inl m \<Rightarrow> Inl (ZipError m)
      | Inr files \<Rightarrow>
          (let candidates = candidates_of (map fst files)
           in if candidates = [] then Inl (Error ''No Journal.json found in zip export'')
              else
                (case sort_candidates candidates of
                   Inl e \<Rightarrow> Inl e
                 | Inr [] \<Rightarrow> Inl (TypeError (null_read h ''async''))
                 | Inr (c # _) \<Rightarrow> read_journal h files c)))"

subsection \<open>The session and \<open>processFile\<close>\<close>

text \<open>
  The state that a conversion reads and writes: the variable \<open>currentMarkdown\<close>, the
  value of the preview area, the text of the \<open>meta\<close> line, whether the two buttons are
  disabled, whether the drop zone has the class \<open>processing\<close>, and class and text of
  the status line.
\<close>

record session =
  currentMarkdown :: string
  preview_value :: string
  meta_textContent :: string
  copyBtn_disabled :: bool
  downloadBtn_disabled :: bool
  dropZone_processing :: bool
  statusText_className :: string
  statusText_textContent :: string

definition setProcessing :: "session \<Rightarrow> string \<Rightarrow> session" where
  "setProcessing s m =
     s\<lparr>dropZone_processing := True, statusText_className := ''status-text'',
       statusText_textContent := m\<rparr>"

definition setSuccess :: "session \<Rightarrow> string \<Rightarrow> session" where
  "setSuccess s m =
     s\<lparr>dropZone_processing := False, statusText_className := ''status-text success'',
       statusText_textContent := m\<rparr>"

definition setError :: "session \<Rightarrow> string \<Rightarrow> session" where
  "setError s m =
     s\<lparr>dropZone_processing := False, statusText_className := ''status-text error'',
       statusText_textContent := m\<rparr>"

definition setNoOutput :: "session \<Rightarrow> session" where
  "setNoOutput s =
     s\<lparr>currentMarkdown := [], preview_value := [], meta_textContent := [],
       copyBtn_disabled := True, downloadBtn_disabled := True\<rparr>"

text \<open>The statements of the \<open>try\<close> block that can throw (lines 113 to 128), in three
  steps: the journal (lines 113 to 118), its entries (line 120), and the entries together
  with the Markdown text, or the exception.\<close>

definition journal_of :: "host \<Rightarrow> js_file \<Rightarrow> bool \<Rightarrow> exn + json" where
  "journal_of h f isJson =
     (if isJson
      then
        (case file_text f of
           Inl m \<Rightarrow> Inl (ReadError m)
         | Inr text \<Rightarrow>
             (case JSON_parse h text of Inl m \<Rightarrow> Inl (SyntaxError m) | Inr j \<Rightarrow> Inr j))
      else parseJournalFromZip h f)"

definition entries_of :: "json \<Rightarrow> json list" where
  "entries_of journal = (case prop_of journal ''entries'' of Some (JArr es) \<Rightarrow> es | _ \<Rightarrow> [])"

definition convert :: "host \<Rightarrow> js_file \<Rightarrow> bool \<Rightarrow> exn + (json list \<times> string)" where
  "convert h f isJson =
     (case journal_of h f isJson of
        Inl e \<Rightarrow> Inl e
      | Inr journal \<Rightarrow>
          (let entries = entries_of journal
           in if entries = [] then Inl (Error ''No entries found in Journal.json'')
              else
                (case toMarkdown h entries of
                   Inl e \<Rightarrow> Inl e
                 | Inr markdown \<Rightarrow>
                     if trim markdown = []
                     then Inl (Error ''Could not build markdown output from entries'')
                     else Inr (entries, markdown))))"

text \<open>The lines 135 to 137: the sorted entries once more, and the headers of the first
  and of the last of them.\<close>

definition range_of :: "host \<Rightarrow> json list \<Rightarrow> exn + (string \<times> string)" where
  "range_of h entries =
     (case sortEntries h entries of
        Inl e \<Rightarrow> Inl e
      | Inr sortedEntries \<Rightarrow>
          (case formatTimestamp h
                  (case sortedEntries of [] \<Rightarrow> None
                   | _ \<Rightarrow> prop_of (hd sortedEntries) ''creationDate'') of
             Inl e \<Rightarrow> Inl e
           | Inr first \<Rightarrow>
               (case formatTimestamp h
                       (case sortedEntries of [] \<Rightarrow> None
                        | _ \<Rightarrow> prop_of (last sortedEntries) ''creationDate'') of
                  Inl e \<Rightarrow> Inl e
                | Inr last_header \<Rightarrow> Inr (first, last_header))))"

text \<open>\<open>processFile\<close>. The \<open>catch\<close> block is \<open>failed\<close>; it gets the session as the
  \<open>try\<close> block has left it.\<close>

definition failed :: "session \<Rightarrow> exn \<Rightarrow> session" where
  "failed s error =
     setError (setNoOutput s)
       (if message error \<noteq> [] then message error else ''Failed to process file'')"

definition processFile :: "host \<Rightarrow> session \<Rightarrow> js_file \<Rightarrow> session" where
  "processFile h s f =
     (let lowerName = toLowerCase (file_name f);
          isJson = endsWith lowerName ''.json'';
          isZip = endsWith lowerName ''.zip''
      in if \<not> isJson \<and> \<not> isZip
         then setError (setNoOutput s) ''Unsupported file type. Use Day One .zip or Journal.json''
         else
           (let s1 = setProcessing s ''Processing file...''
            in case convert h f isJson of
                 Inl error \<Rightarrow> failed s1 error
               | Inr (entries, markdown) \<Rightarrow>
                   (let s2 = s1\<lparr>currentMarkdown := markdown, preview_value := markdown,
                                copyBtn_disabled := False, downloadBtn_disabled := False\<rparr>
                    in case range_of h entries of
                         Inl error \<Rightarrow> failed s2 error
                       | Inr (first, last_header) \<Rightarrow>
                           (let s3 = setSuccess s2
                                       (''Done. '' @ String_of (int (length entries))
                                          @ '' entries converted.'')
                            in s3\<lparr>meta_textContent :=
                                    ''Range: '' @ first @ '' to '' @ last_header
                                      @ '' (UTC). Processed locally in your browser.''\<rparr>))))"

subsection \<open>A host for the examples\<close>

text \<open>
  The properties below hold for every host. Where one of them is shown at work on a
  concrete export, the host is \<open>example_host\<close>: an engine reduced to what the examples
  need. Its \<open>Date.parse\<close> knows the one format in which Day One writes its dates,
  \<open>YYYY-MM-DDTHH:mm:ssZ\<close>, and answers \<open>NaN\<close> to everything else; its \<open>JSON.parse\<close>
  reads JSON texts without fractions, exponents and Unicode escapes and throws on
  everything else.
\<close>

text \<open>The date parser: the six numbers are read at their places, checked against the
  calendar and turned into milliseconds since the epoch through the count of days.\<close>

definition digit_val :: "char \<Rightarrow> nat option" where
  "digit_val c = (let n = (of_char c :: nat) in if 48 \<le> n \<and> n \<le> 57 then Some (n - 48) else None)"

fun number_from :: "nat \<Rightarrow> string \<Rightarrow> nat option" where
  "number_from acc [] = Some acc"
| "number_from acc (c # cs) =
     (case digit_val c of None \<Rightarrow> None | Some d \<Rightarrow> number_from (10 * acc + d) cs)"

definition days_from_civil :: "int \<Rightarrow> int \<Rightarrow> int \<Rightarrow> int" where
  "days_from_civil y0 m d =
     (let y = (if m \<le> 2 then y0 - 1 else y0);
          era = y div 400;
          yoe = y mod 400;
          doy = (153 * (if m > 2 then m - 3 else m + 9) + 2) div 5 + d - 1;
          doe = yoe * 365 + yoe div 4 - yoe div 100 + doy
      in era * 146097 + doe - 719468)"

definition days_in_month :: "int \<Rightarrow> int \<Rightarrow> int" where
  "days_in_month y m =
     (if m = 2 then (if y mod 4 = 0 \<and> (y mod 100 \<noteq> 0 \<or> y mod 400 = 0) then 29 else 28)
      else if m \<in> {4, 6, 9, 11} then 30 else 31)"

definition parse_utc :: "string \<Rightarrow> int option" where
  "parse_utc s =
     (if length s = 20 \<and> s ! 4 = CHR ''-'' \<and> s ! 7 = CHR ''-'' \<and> s ! 10 = CHR ''T''
         \<and> s ! 13 = CHR '':'' \<and> s ! 16 = CHR '':'' \<and> s ! 19 = CHR ''Z''
      then
        (case (number_from 0 (take 4 s), number_from 0 (take 2 (drop 5 s)),
               number_from 0 (take 2 (drop 8 s)), number_from 0 (take 2 (drop 11 s)),
               number_from 0 (take 2 (drop 14 s)), number_from 0 (take 2 (drop 17 s))) of
           (Some y, Some m, Some d, Some hh, Some mm, Some ss) \<Rightarrow>
             if 1 \<le> m \<and> m \<le> 12 \<and> 1 \<le> d \<and> int d \<le> days_in_month (int y) (int m)
                \<and> (hh < 24 \<or> (hh = 24 \<and> mm = 0 \<and> ss = 0)) \<and> mm < 60 \<and> ss < 60
             then Some ((days_from_civil (int y) (int m) (int d) * 86400
                          + int hh * 3600 + int mm * 60 + int ss) * 1000)
             else None
         | _ \<Rightarrow> None)
      else None)"


definition example_Date_parse :: "jsval \<Rightarrow> int option" where
  "example_Date_parse v = (case v of Some (JStr s) \<Rightarrow> parse_utc s | _ \<Rightarrow> None)"

text \<open>\<open>new Date(v)\<close> parses a string like \<open>Date.parse\<close> and takes a number as the time
  value, if it is within 8.64e15 milliseconds of the epoch.\<close>

definition example_Date_new :: "jsval \<Rightarrow> int option" where
  "example_Date_new v =
     (case v of
        Some (JStr s) \<Rightarrow> parse_utc s
      | Some (JNum n) \<Rightarrow> (if \<bar>n\<bar> \<le> 8640000000000000 then Some n else None)
      | _ \<Rightarrow> None)"

text \<open>The JSON parser: a value, the elements of an array behind \<open>[\<close> and the members
  of an object behind \<open>{\<close>, each with the rest of the text. The first argument bounds
  the number of calls that follow one another; \<open>json_parse\<close> starts with one more than
  the length of the text, and every later call follows a character that has been read.\<close>

definition json_ws :: "char \<Rightarrow> bool" where
  "json_ws c \<longleftrightarrow> c \<in> {CHR 0x20, CHR 0x09, CHR 0x0A, CHR 0x0D}"

definition unescape :: "char \<Rightarrow> char option" where
  "unescape e =
     (if e = CHR 0x22 \<or> e = CHR 0x5C \<or> e = CHR ''/'' then Some e
      else if e = CHR ''b'' then Some (CHR 0x08)
      else if e = CHR ''f'' then Some (CHR 0x0C)
      else if e = CHR ''n'' then Some (CHR 0x0A)
      else if e = CHR ''r'' then Some (CHR 0x0D)
      else if e = CHR ''t'' then Some (CHR 0x09)
      else None)"

fun parse_chars :: "string \<Rightarrow> (string \<times> string) option" where
  "parse_chars [] = None"
| "parse_chars [c] = (if c = CHR 0x22 then Some ([], []) else None)"
| "parse_chars (c # d # cs) =
     (if c = CHR 0x22 then Some ([], d # cs)
      else if c = CHR 0x5C then
        (case unescape d of
           None \<Rightarrow> None
         | Some u \<Rightarrow> map_option (\<lambda>(t, r). (u # t, r)) (parse_chars cs))
      else if (of_char c :: nat) < 32 then None
      else map_option (\<lambda>(t, r). (c # t, r)) (parse_chars (d # cs)))"

definition is_digit :: "char \<Rightarrow> bool" where
  "is_digit c \<longleftrightarrow> (48::nat) \<le> of_char c \<and> (of_char c :: nat) \<le> 57"

fun value_of_digits :: "int \<Rightarrow> string \<Rightarrow> int" where
  "value_of_digits acc [] = acc"
| "value_of_digits acc (c # cs) = value_of_digits (10 * acc + (int (of_char c) - 48)) cs"

definition parse_nat :: "string \<Rightarrow> (int \<times> string) option" where
  "parse_nat s =
     (let ds = takeWhile is_digit s; r = dropWhile is_digit s
      in if ds = [] \<or> (hd ds = CHR ''0'' \<and> length ds > 1) then None
         else if r \<noteq> [] \<and> hd r \<in> {CHR ''.'', CHR ''e'', CHR ''E''} then None
         else Some (value_of_digits 0 ds, r))"

definition parse_number :: "string \<Rightarrow> (json \<times> string) option" where
  "parse_number s =
     (case s of
        [] \<Rightarrow> None
      | c # cs \<Rightarrow>
          if c = CHR ''-'' then map_option (\<lambda>(n, r). (JNum (- n), r)) (parse_nat cs)
          else map_option (\<lambda>(n, r). (JNum n, r)) (parse_nat s))"

fun parse_value :: "nat \<Rightarrow> string \<Rightarrow> (json \<times> string) option"
  and parse_elements :: "nat \<Rightarrow> string \<Rightarrow> (json list \<times> string) option"
  and parse_members :: "nat \<Rightarrow> string \<Rightarrow> ((string \<times> json) list \<times> string) option"
where
  "parse_value 0 s = None"
| "parse_value (Suc n) s =
     (case dropWhile json_ws s of
        [] \<Rightarrow> None
      | c # cs \<Rightarrow>
          if c = CHR ''{'' then
            (case dropWhile json_ws cs of
               [] \<Rightarrow> None
             | d # ds \<Rightarrow>
                 if d = CHR ''}'' then Some (JObj [], ds)
                 else map_option (\<lambda>(kvs, r). (JObj kvs, r)) (parse_members n cs))
          else if c = CHR ''['' then
            (case dropWhile json_ws cs of
               [] \<Rightarrow> None
             | d # ds \<Rightarrow>
                 if d = CHR '']'' then Some (JArr [], ds)
                 else map_option (\<lambda>(vs, r). (JArr vs, r)) (parse_elements n cs))
          else if c = CHR 0x22 then map_option (\<lambda>(t, r). (JStr t, r)) (parse_chars cs)
          else if take 4 (c # cs) = ''true'' then Some (JBool True, drop 3 cs)
          else if take 5 (c # cs) = ''false'' then Some (JBool False, drop 4 cs)
          else if take 4 (c # cs) = ''null'' then Some (JNull, drop 3 cs)
          else parse_number (c # cs))"
| "parse_elements 0 s = None"
| "parse_elements (Suc n) s =
     (case parse_value n s of
        None \<Rightarrow> None
      | Some (v, r) \<Rightarrow>
          (case dropWhile json_ws r of
             [] \<Rightarrow> None
           | c # cs \<Rightarrow>
               if c = CHR '','' then map_option (\<lambda>(vs, r'). (v # vs, r')) (parse_elements n cs)
               else if c = CHR '']'' then Some ([v], cs)
               else None))"
| "parse_members 0 s = None"
| "parse_members (Suc n) s =
     (case dropWhile json_ws s of
        [] \<Rightarrow> None
      | q # qs \<Rightarrow>
          if q \<noteq> CHR 0x22 then None
          else
            (case parse_chars qs of
               None \<Rightarrow> None
             | Some (k, r) \<Rightarrow>
                 (case dropWhile json_ws r of
                    [] \<Rightarrow> None
                  | c # cs \<Rightarrow>
                      if c \<noteq> CHR '':'' then None
                      else
                        (case parse_value n cs of
                           None \<Rightarrow> None
                         | Some (v, r') \<Rightarrow>
                             (case dropWhile json_ws r' of
                                [] \<Rightarrow> None
                              | e # es \<Rightarrow>
                                  if e = CHR '','' then
                                    map_option (\<lambda>(kvs, r''). ((k, v) # kvs, r''))
                                      (parse_members n es)
                                  else if e = CHR ''}'' then Some ([(k, v)], es)
                                  else None)))))"

definition json_parse :: "string \<Rightarrow> string + json" where
  "json_parse s =
     (case parse_value (Suc (length s)) s of
        None \<Rightarrow> Inl ''Unexpected token''
      | Some (v, r) \<Rightarrow> if dropWhile json_ws r = [] then Inr v else Inl ''Unexpected token'')"


definition example_host :: host where
  "example_host =
     \<lparr>Date_parse = example_Date_parse, Date_new = example_Date_new, JSON_parse = json_parse,
      null_read =
        (\<lambda>k. ''Cannot read properties of null (reading '' @ [CHR 0x27] @ k @ [CHR 0x27] @ '')''),
      cannot_convert = ''Cannot convert object to primitive value''\<rparr>"

text \<open>A session as a successful conversion leaves it, with the output of that conversion
  in place.\<close>

definition stale_session :: session where
  "stale_session =
     \<lparr>currentMarkdown = ''# 2020-01-01 00-00-00'' @ [CHR 0x0A, CHR 0x0A] @ ''old'',
      preview_value = ''# 2020-01-01 00-00-00'' @ [CHR 0x0A, CHR 0x0A] @ ''old'',
      meta_textContent = ''Copied markdown to clipboard.'',
      copyBtn_disabled = False, downloadBtn_disabled = False, dropZone_processing = False,
      statusText_className = ''status-text success'',
      statusText_textContent = ''Done. 1 entries converted.''\<rparr>"

subsection \<open>The date of an entry\<close>

text \<open>
  \<open>date_field e\<close> is the field that the date of an entry is read from, the first truthy
  one of \<open>creationDate\<close> and \<open>modifiedDate\<close> (the expression
  \<open>entry.creationDate || entry.modifiedDate\<close> of the lines 170 and 183). \<open>instant h e\<close>
  is the instant that \<open>parseDate\<close> returns; where \<open>parseDate\<close> throws it is of no
  account.
\<close>

definition date_field :: "json \<Rightarrow> jsval" where
  "date_field e = or_js (prop_of e ''creationDate'') (prop_of e ''modifiedDate'')"

definition instant :: "host \<Rightarrow> json \<Rightarrow> int" where
  "instant h e = (case parseDate h e of Inl _ \<Rightarrow> 0 | Inr t \<Rightarrow> t)"

subsection \<open>Escapes in a text\<close>

text \<open>\<open>has_escape s\<close>: somewhere in \<open>s\<close> a backslash stands in front of a period or a
  hyphen. \<open>has_double_escape s\<close>: somewhere in \<open>s\<close> two backslashes stand in front of a
  period or a hyphen.\<close>

fun has_escape :: "string \<Rightarrow> bool" where
  "has_escape (a # b # cs) =
     ((a = CHR 0x5C \<and> (b = CHR ''.'' \<or> b = CHR ''-'')) \<or> has_escape (b # cs))"
| "has_escape _ = False"

fun has_double_escape :: "string \<Rightarrow> bool" where
  "has_double_escape (a # b # c # cs) =
     ((a = CHR 0x5C \<and> b = CHR 0x5C \<and> (c = CHR ''.'' \<or> c = CHR ''-''))
      \<or> has_double_escape (b # c # cs))"
| "has_double_escape _ = False"

section \<open>Properties\<close>

subsection \<open>Sorting\<close>

text \<open>A comparison function that does not throw on the elements of a list and compares a
  key makes the insertion sort above the stable insertion sort by key of the library.\<close>

lemma insert_by_eq_insort_key:
  assumes "\<And>y. y \<in> set xs \<Longrightarrow> \<exists>c. cmp x y = Inr c \<and> (c \<le> 0 \<longleftrightarrow> k x \<le> k y)"
  shows "insert_by cmp x xs = Inr (insort_key k x xs)"
  using assms
proof (induction xs)
  case Nil
  then show ?case by simp
next
  case (Cons y ys)
  obtain c where c: "cmp x y = Inr c" "c \<le> 0 \<longleftrightarrow> k x \<le> k y"
    using Cons.prems [of y] by auto
  have "insert_by cmp x ys = Inr (insort_key k x ys)"
    using Cons.IH Cons.prems by simp
  then show ?case
    using c by simp
qed

lemma array_sort_eq_sort_key:
  assumes "\<And>x y. x \<in> set xs \<Longrightarrow> y \<in> set xs \<Longrightarrow>
            \<exists>c. cmp x y = Inr c \<and> (c \<le> 0 \<longleftrightarrow> k x \<le> k y)"
  shows "array_sort cmp xs = Inr (sort_key k xs)"
  using assms
proof (induction xs)
  case Nil
  then show ?case by simp
next
  case (Cons x xs)
  have "array_sort cmp xs = Inr (sort_key k xs)"
    using Cons.IH Cons.prems by simp
  moreover have "insert_by cmp x (sort_key k xs) = Inr (insort_key k x (sort_key k xs))"
    using Cons.prems by (intro insert_by_eq_insort_key) simp
  ultimately show ?case by simp
qed

lemma sort_candidates_eq: "sort_candidates cs = Inr (sort_key length cs)"
  unfolding sort_candidates_def by (rule array_sort_eq_sort_key) auto

text \<open>When a sort returns, it returns the elements it was given; when it throws, a
  comparison has thrown.\<close>

lemma insert_by_mset: "insert_by cmp x ys = Inr zs \<Longrightarrow> mset zs = add_mset x (mset ys)"
  by (induction ys arbitrary: zs) (auto split: sum.splits if_splits)

lemma array_sort_mset: "array_sort cmp xs = Inr ss \<Longrightarrow> mset ss = mset xs"
  by (induction xs arbitrary: ss) (auto split: sum.splits dest: insert_by_mset)

lemma insert_by_Inl: "insert_by cmp x ys = Inl e \<Longrightarrow> \<exists>y. cmp x y = Inl e"
  by (induction ys) (auto split: sum.splits if_splits)

lemma array_sort_Inl: "array_sort cmp xs = Inl e \<Longrightarrow> \<exists>x y. cmp x y = Inl e"
proof (induction xs)
  case Nil
  then show ?case by simp
next
  case (Cons x xs)
  show ?case
  proof (cases "array_sort cmp xs")
    case (Inl e')
    then show ?thesis using Cons by simp
  next
    case (Inr s)
    then have "insert_by cmp x s = Inl e"
      using Cons.prems by simp
    then show ?thesis using insert_by_Inl [of cmp x s e] by auto
  qed
qed

text \<open>The dates: \<open>parseDate\<close> throws exactly when the date field of the entry cannot be
  converted, and then with the \<open>TypeError\<close> of the conversion.\<close>

lemma date_throws_truthy: "date_throws v \<Longrightarrow> truthy v"
  by (cases v rule: truthy.cases) simp_all

lemma parseDate_Inl_iff:
  "parseDate h e = Inl x \<longleftrightarrow> date_throws (date_field e) \<and> x = TypeError (cannot_convert h)"
proof (cases "truthy (date_field e)")
  case True
  then have "or_js (date_field e) (Some (JStr [])) = date_field e"
    by (simp add: or_js_def)
  then show ?thesis
    by (auto simp: parseDate_def date_field_def Date_parse_js_def Let_def
        split: option.splits if_splits)
next
  case False
  then have "or_js (date_field e) (Some (JStr [])) = Some (JStr [])"
    by (simp add: or_js_def)
  moreover have "\<not> date_throws (date_field e)"
    using False date_throws_truthy by blast
  ultimately show ?thesis
    by (auto simp: parseDate_def date_field_def Date_parse_js_def Let_def
        split: option.splits if_splits)
qed

lemma parseDate_Inr_iff: "(\<exists>t. parseDate h e = Inr t) \<longleftrightarrow> \<not> date_throws (date_field e)"
  using parseDate_Inl_iff [of h e] by (cases "parseDate h e") auto

lemma parseDate_instant: "parseDate h e = Inr t \<Longrightarrow> instant h e = t"
  by (simp add: instant_def)

lemma compare_dates_Inr:
  "compare_dates h a b = Inr c \<longleftrightarrow>
     (\<exists>s t. parseDate h a = Inr s \<and> parseDate h b = Inr t \<and> c = s - t)"
  by (auto simp: compare_dates_def split: sum.splits)

lemma compare_dates_Inl: "compare_dates h a b = Inl x \<Longrightarrow> x = TypeError (cannot_convert h)"
  by (auto simp: compare_dates_def parseDate_Inl_iff split: sum.splits)

text \<open>\<open>sortEntries\<close>: with dates that can be converted it is the stable sort by instant,
  and so it is whenever it returns; it returns a list of fewer than two entries as it is;
  it throws when one of two or more entries has a date that cannot be converted.\<close>

lemma sortEntries_defined:
  assumes "\<forall>e \<in> set entries. \<not> date_throws (date_field e)"
  shows "sortEntries h entries = Inr (sort_key (instant h) entries)"
  unfolding sortEntries_def
proof (rule array_sort_eq_sort_key)
  fix x y
  assume "x \<in> set entries" "y \<in> set entries"
  then obtain s t where "parseDate h x = Inr s" "parseDate h y = Inr t"
    using assms parseDate_Inr_iff by blast
  then show "\<exists>c. compare_dates h x y = Inr c \<and> (c \<le> 0 \<longleftrightarrow> instant h x \<le> instant h y)"
    by (auto simp: compare_dates_Inr parseDate_instant)
qed

lemma sortEntries_short: "length entries \<le> 1 \<Longrightarrow> sortEntries h entries = Inr entries"
  by (cases entries) (auto simp: sortEntries_def)

lemma insert_by_compared:
  assumes "insert_by (compare_dates h) x (y # ys) = Inr zs"
  shows "\<not> date_throws (date_field x) \<and> \<not> date_throws (date_field y)"
proof -
  obtain c where "compare_dates h x y = Inr c"
    using assms by (cases "compare_dates h x y") auto
  then show ?thesis
    using parseDate_Inr_iff by (auto simp: compare_dates_Inr)
qed

lemma sortEntries_returns:
  assumes "sortEntries h entries = Inr ss"
  shows "length entries \<le> 1 \<or> (\<forall>e \<in> set entries. \<not> date_throws (date_field e))"
  using assms unfolding sortEntries_def
proof (induction entries arbitrary: ss)
  case Nil
  then show ?case by simp
next
  case (Cons x xs)
  obtain s where s: "array_sort (compare_dates h) xs = Inr s"
    and ins: "insert_by (compare_dates h) x s = Inr ss"
    using Cons.prems by (auto split: sum.splits)
  show ?case
  proof (cases xs)
    case Nil
    then show ?thesis by simp
  next
    case (Cons y ys)
    have "mset s = mset xs"
      using s by (rule array_sort_mset)
    then have "s \<noteq> []"
      using Cons by auto
    then obtain z zs where z: "s = z # zs"
      by (cases s) auto
    have x: "\<not> date_throws (date_field x)" and zz: "\<not> date_throws (date_field z)"
      using insert_by_compared ins z by blast+
    have "z \<in> set xs"
      using \<open>mset s = mset xs\<close> z by (metis list.set_intros(1) set_mset_mset)
    from Cons.IH [OF s] show ?thesis
    proof
      assume "length xs \<le> 1"
      then have "xs = [z]"
        using \<open>z \<in> set xs\<close> Cons by (cases ys) auto
      then show ?thesis
        using x zz by simp
    next
      assume "\<forall>e \<in> set xs. \<not> date_throws (date_field e)"
      then show ?thesis
        using x by simp
    qed
  qed
qed

lemma sortEntries_eq:
  assumes "sortEntries h entries = Inr ss"
  shows "ss = sort_key (instant h) entries"
proof -
  from sortEntries_returns [OF assms] show ?thesis
  proof
    assume short: "length entries \<le> 1"
    then have "sort_key (instant h) entries = entries"
      by (cases entries) auto
    then show ?thesis
      using assms sortEntries_short [OF short, of h] by simp
  next
    assume "\<forall>e \<in> set entries. \<not> date_throws (date_field e)"
    then show ?thesis
      using assms sortEntries_defined [of entries h] by simp
  qed
qed

lemma sortEntries_Inl: "sortEntries h entries = Inl x \<Longrightarrow> x = TypeError (cannot_convert h)"
  unfolding sortEntries_def
  using array_sort_Inl [of "compare_dates h" entries x] compare_dates_Inl [of h] by auto

lemma sortEntries_throws:
  assumes "2 \<le> length entries" and "e \<in> set entries" and "date_throws (date_field e)"
  shows "sortEntries h entries = Inl (TypeError (cannot_convert h))"
proof (cases "sortEntries h entries")
  case (Inl x)
  then show ?thesis using sortEntries_Inl by blast
next
  case (Inr ss)
  then show ?thesis using sortEntries_returns [OF Inr] assms by auto
qed

lemma length_sortEntries: "sortEntries h entries = Inr ss \<Longrightarrow> length ss = length entries"
  by (drule sortEntries_eq) simp

lemma set_sortEntries: "sortEntries h entries = Inr ss \<Longrightarrow> set ss = set entries"
  by (drule sortEntries_eq) simp

subsection \<open>Headers\<close>

text \<open>The time value 0 is 1 January 1970, 00:00:00 UTC. \<open>formatTimestamp\<close> renders it for
  every falsy value; it throws exactly for the values that cannot be converted.\<close>

lemma epoch_fields:
  "getUTCFullYear 0 = 1970" "getUTCMonth 0 = 0" "getUTCDate 0 = 1"
  "getUTCHours 0 = 0" "getUTCMinutes 0 = 0" "getUTCSeconds 0 = 0"
  by code_simp+

lemma epoch_strings: "String_of 1970 = ''1970''" "pad 0 = ''00''" "pad 1 = ''01''"
  by code_simp+

lemma format_utc_epoch: "format_utc 0 = ''1970-01-01 00-00-00''"
  by (simp add: format_utc_def epoch_fields epoch_strings)

lemma formatTimestamp_falsy: "\<not> truthy v \<Longrightarrow> formatTimestamp h v = Inr ''1970-01-01 00-00-00''"
  by (simp add: formatTimestamp_def format_utc_epoch)

lemma formatTimestamp_truthy:
  assumes "truthy v" and "\<not> date_throws v"
  shows "formatTimestamp h v =
           Inr (case Date_new h v of None \<Rightarrow> ''1970-01-01 00-00-00'' | Some t \<Rightarrow> format_utc t)"
  using assms by (simp add: formatTimestamp_def Date_new_js_def split: option.splits)

lemma formatTimestamp_Inl_iff:
  "formatTimestamp h v = Inl x \<longleftrightarrow> date_throws v \<and> x = TypeError (cannot_convert h)"
  using date_throws_truthy [of v]
  by (auto simp: formatTimestamp_def Date_new_js_def split: option.splits if_splits)

lemma header_defined:
  assumes "\<not> date_throws (date_field e)"
  shows "\<exists>t. formatTimestamp h (prop_of e ''creationDate'') = Inr t"
proof (cases "formatTimestamp h (prop_of e ''creationDate'')")
  case (Inl x)
  then have d: "date_throws (prop_of e ''creationDate'')"
    by (simp add: formatTimestamp_Inl_iff)
  then have "date_field e = prop_of e ''creationDate''"
    using date_throws_truthy by (simp add: date_field_def or_js_def)
  then show ?thesis using assms d by simp
next
  case (Inr t)
  then show ?thesis by blast
qed

text \<open>Three facts of the example host.\<close>

lemma example_host_empty: "Date_parse example_host (Some (JStr [])) = None"
  by code_simp

lemma example_host_date:
  "Date_parse example_host (Some (JStr ''2023-05-01T14:03:09Z'')) = Some 1682949789000"
  by code_simp

lemma example_host_garbage: "Date_parse example_host (Some (JStr ''garbage'')) = None"
  by code_simp

subsection \<open>Rendered blocks\<close>

text \<open>A block starts with the \<open>#\<close> of its header, which \<open>trim\<close> leaves in place.
  Rendering the block of an entry throws for the entry \<open>null\<close> and for an entry whose
  date field cannot be converted, and for no other entry; the exceptions of \<open>toMarkdown\<close>
  are these two and the one of the sort, each a \<open>TypeError\<close>.\<close>

lemma trim_Cons_nonwhite:
  assumes "\<not> is_white c"
  shows "\<exists>t. trim (c # r) = c # t"
proof -
  have "dropWhile is_white (rev r @ [c]) = dropWhile is_white (rev r) @ [c]
      \<or> dropWhile is_white (rev r @ [c]) = [c]"
    using assms by (simp add: dropWhile_append)
  then obtain zs where "dropWhile is_white (rev r @ [c]) = zs @ [c]"
    by (metis append_Nil)
  then show ?thesis
    using assms by (simp add: trim_def)
qed

lemma hash_not_white: "\<not> is_white (CHR ''#'')"
  by (simp add: is_white_def)

lemma section_of_date:
  assumes "e \<noteq> JNull"
  shows "section_of h e =
           (case formatTimestamp h (date_field e) of
              Inl x \<Rightarrow> Inl x
            | Inr title \<Rightarrow>
                Inr (trim (''# '' @ title @ [CHR 0x0A, CHR 0x0A] @ getEntryText h e)))"
  using assms
  by (auto simp: section_of_def get_def date_field_def or_js_def Let_def split: sum.splits)

lemma section_of_hash:
  assumes "section_of h e = Inr s"
  shows "\<exists>t. s = CHR ''#'' # t"
proof -
  obtain title where
    "s = trim (''# '' @ title @ [CHR 0x0A, CHR 0x0A] @ getEntryText h e)"
    using assms by (auto simp: section_of_def split: sum.splits if_splits)
  then show ?thesis
    using trim_Cons_nonwhite [OF hash_not_white] by (metis append_Cons)
qed

lemma section_of_error:
  "section_of h e = Inl x \<longleftrightarrow>
     (e = JNull \<and> x = TypeError (null_read h ''creationDate''))
     \<or> (e \<noteq> JNull \<and> date_throws (date_field e) \<and> x = TypeError (cannot_convert h))"
proof (cases "e = JNull")
  case True
  then show ?thesis by (auto simp: section_of_def get_def)
next
  case False
  then show ?thesis
    using formatTimestamp_Inl_iff [of h "date_field e" x]
    by (auto simp: section_of_date split: sum.splits)
qed

lemma section_of_Inr_iff:
  "(\<exists>s. section_of h e = Inr s) \<longleftrightarrow> e \<noteq> JNull \<and> \<not> date_throws (date_field e)"
  using section_of_error [of h e] by (cases "section_of h e") auto

lemma map_exn_Inr:
  "map_exn f xs = Inr ys \<Longrightarrow> list_all2 (\<lambda>x y. f x = Inr y) xs ys"
  by (induction xs arbitrary: ys) (auto split: sum.splits)

lemma map_exn_total:
  "\<forall>x \<in> set xs. \<exists>y. f x = Inr y \<Longrightarrow> \<exists>ys. map_exn f xs = Inr ys"
  by (induction xs) (auto split: sum.splits)

lemma map_exn_Inl:
  assumes "z \<in> set xs" and "f z = Inl e"
    and "\<And>x e'. x \<in> set xs \<Longrightarrow> f x = Inl e' \<Longrightarrow> e' = e"
  shows "map_exn f xs = Inl e"
  using assms(1,3)
proof (induction xs)
  case Nil
  then show ?case by simp
next
  case (Cons x xs)
  show ?case
  proof (cases "f x")
    case (Inl e')
    then show ?thesis using Cons.prems(2) [of x e'] by simp
  next
    case (Inr y)
    then have "z \<in> set xs" using Cons.prems(1) assms(2) by auto
    moreover have "e' = e" if "x' \<in> set xs" "f x' = Inl e'" for x' e'
      using Cons.prems(2) [of x' e'] that by simp
    ultimately have "map_exn f xs = Inl e" by (rule Cons.IH)
    then show ?thesis using Inr by simp
  qed
qed

lemma map_exn_Inl_D: "map_exn f xs = Inl e \<Longrightarrow> \<exists>x \<in> set xs. f x = Inl e"
  by (induction xs) (auto split: sum.splits)

lemma toMarkdown_Inr:
  assumes "toMarkdown h entries = Inr markdown"
  shows "\<exists>sorted_entries ss. sortEntries h entries = Inr sorted_entries
           \<and> list_all2 (\<lambda>e s. section_of h e = Inr s) sorted_entries ss
           \<and> markdown = join separator ss"
proof -
  obtain ss where ss: "sections h entries = Inr ss" and md: "markdown = join separator ss"
    using assms by (auto simp: toMarkdown_def split: sum.splits)
  then obtain sorted_entries where s: "sortEntries h entries = Inr sorted_entries"
    and m: "map_exn (section_of h) sorted_entries = Inr ss"
    by (auto simp: sections_def split: sum.splits)
  show ?thesis
    using s md map_exn_Inr [OF m] by blast
qed

lemma toMarkdown_entries:
  assumes "toMarkdown h entries = Inr markdown" and "e \<in> set entries"
  shows "e \<noteq> JNull \<and> \<not> date_throws (date_field e)"
proof -
  obtain sorted_entries ss where s: "sortEntries h entries = Inr sorted_entries"
    and l: "list_all2 (\<lambda>e s. section_of h e = Inr s) sorted_entries ss"
    using toMarkdown_Inr [OF assms(1)] by blast
  have "e \<in> set sorted_entries"
    using assms(2) set_sortEntries [OF s] by simp
  then obtain s' where "section_of h e = Inr s'"
    using l by (auto simp: list_all2_conv_all_nth in_set_conv_nth)
  then show ?thesis
    using section_of_Inr_iff by blast
qed

lemma toMarkdown_error:
  assumes "toMarkdown h entries = Inl x"
  shows "(\<exists>m. x = TypeError m)
    \<and> (\<exists>e \<in> set entries. e = JNull \<or> date_throws (date_field e))"
proof (cases "sortEntries h entries")
  case (Inl y)
  then have x: "x = TypeError (cannot_convert h)"
    using assms sortEntries_Inl [of h entries y]
    by (simp add: toMarkdown_def sections_def)
  have "\<not> (\<forall>e \<in> set entries. \<not> date_throws (date_field e))"
    using Inl sortEntries_defined [of entries h] by auto
  then show ?thesis using x by blast
next
  case (Inr sorted_entries)
  then have "map_exn (section_of h) sorted_entries = Inl x"
    using assms by (auto simp: toMarkdown_def sections_def split: sum.splits)
  then obtain e where "e \<in> set sorted_entries" and "section_of h e = Inl x"
    using map_exn_Inl_D by fastforce
  then show ?thesis
    using set_sortEntries [OF Inr] by (auto simp: section_of_error)
qed

lemma join_Cons: "\<exists>t. join sep (s # ss) = s @ t"
  by (cases ss) auto

lemma cleanupText_Nil_iff: "cleanupText s = [] \<longleftrightarrow> s = []"
  by (induction s rule: cleanupText.induct) auto

lemma getEntryText_nonempty: "getEntryText h e \<noteq> []"
  by (auto simp: getEntryText_def Let_def cleanupText_Nil_iff split: option.splits json.splits sum.splits)

lemma toMarkdown_hash:
  assumes "entries \<noteq> []" and "toMarkdown h entries = Inr markdown"
  shows "\<exists>t. markdown = CHR ''#'' # t"
proof -
  obtain sorted_entries ss where s: "sortEntries h entries = Inr sorted_entries"
    and l: "list_all2 (\<lambda>e s. section_of h e = Inr s) sorted_entries ss"
    and md: "markdown = join separator ss"
    using toMarkdown_Inr [OF assms(2)] by blast
  have "length ss = length entries"
    using l length_sortEntries [OF s] by (simp add: list_all2_lengthD [symmetric])
  then obtain s' rest where c: "ss = s' # rest"
    using assms(1) by (cases ss) auto
  then obtain e es where "sorted_entries = e # es" and "section_of h e = Inr s'"
    using l by (auto simp: list_all2_Cons2)
  then obtain t where "s' = CHR ''#'' # t"
    using section_of_hash by blast
  then show ?thesis
    using md c join_Cons [of separator s' rest] by auto
qed

text \<open>After \<open>toMarkdown\<close> has returned, the lines 135 to 137 do not throw.\<close>

lemma range_of_defined:
  assumes "toMarkdown h entries = Inr markdown"
  shows "\<exists>first last_header. range_of h entries = Inr (first, last_header)"
proof -
  obtain sorted_entries where s: "sortEntries h entries = Inr sorted_entries"
    using toMarkdown_Inr [OF assms] by blast
  have ok: "\<exists>t. formatTimestamp h (prop_of e ''creationDate'') = Inr t"
    if "e \<in> set sorted_entries" for e
    using that toMarkdown_entries [OF assms, of e] set_sortEntries [OF s] header_defined
    by blast
  have none: "\<exists>t. formatTimestamp h None = Inr t"
    by (simp add: formatTimestamp_falsy)
  have "\<exists>t. formatTimestamp h
          (case sorted_entries of [] \<Rightarrow> None
           | _ \<Rightarrow> prop_of (hd sorted_entries) ''creationDate'') = Inr t"
    using ok none by (cases sorted_entries) auto
  moreover have "\<exists>t. formatTimestamp h
          (case sorted_entries of [] \<Rightarrow> None
           | _ \<Rightarrow> prop_of (last sorted_entries) ''creationDate'') = Inr t"
    using ok [of "last sorted_entries"] none by (cases sorted_entries) auto
  ultimately show ?thesis
    using s by (auto simp: range_of_def)
qed

text \<open>The sort of the candidates does not throw, and the one \<open>Error\<close> of reading the
  journal is the one of the missing journal.\<close>

lemma parseJournalFromZip_Error:
  "parseJournalFromZip h f = Inl (Error m) \<Longrightarrow> m = ''No Journal.json found in zip export''"
  by (auto simp: parseJournalFromZip_def read_journal_def Let_def sort_candidates_eq
      split: sum.splits if_splits list.splits option.splits)

lemma journal_of_Error:
  "journal_of h f isJson = Inl (Error m) \<Longrightarrow> m = ''No Journal.json found in zip export''"
  using parseJournalFromZip_Error by (auto simp: journal_of_def split: if_splits sum.splits)

subsection \<open>Outcomes of a conversion\<close>

text \<open>What \<open>processFile\<close> leaves behind when the file name has neither suffix, and when
  the \<open>try\<close> block throws.\<close>

lemma convert_no_entries:
  assumes "journal_of h f isJson = Inr journal" and "entries_of journal = []"
  shows "convert h f isJson = Inl (Error ''No entries found in Journal.json'')"
  using assms by (simp add: convert_def)

lemma processFile_failure:
  assumes "endsWith (toLowerCase (file_name f)) ''.json'' \<or> endsWith (toLowerCase (file_name f)) ''.zip''"
    and "convert h f (endsWith (toLowerCase (file_name f)) ''.json'') = Inl e"
  shows "processFile h s f =
           setError (setNoOutput (setProcessing s ''Processing file...''))
             (if message e \<noteq> [] then message e else ''Failed to process file'')"
  using assms by (auto simp: processFile_def Let_def failed_def)

lemma processFile_unsupported:
  assumes "\<not> endsWith (toLowerCase (file_name f)) ''.json''"
    and "\<not> endsWith (toLowerCase (file_name f)) ''.zip''"
  shows "processFile h s f =
           setError (setNoOutput s) ''Unsupported file type. Use Day One .zip or Journal.json''"
  using assms by (simp add: processFile_def Let_def)

lemma convert_Inr:
  assumes "convert h f isJson = Inr (entries, markdown)"
  shows "toMarkdown h entries = Inr markdown \<and> entries \<noteq> [] \<and> trim markdown \<noteq> []"
  using assms by (auto simp: convert_def Let_def split: sum.splits if_splits)

text \<open>After a conversion that has succeeded, the range of the dates is computed without
  an exception: the \<open>catch\<close> block is not entered.\<close>

lemma processFile_success:
  assumes "endsWith (toLowerCase (file_name f)) ''.json'' \<or> endsWith (toLowerCase (file_name f)) ''.zip''"
    and "convert h f (endsWith (toLowerCase (file_name f)) ''.json'') = Inr (entries, markdown)"
  shows "\<exists>first last_header. processFile h s f =
           (setSuccess
              ((setProcessing s ''Processing file...'')
                 \<lparr>currentMarkdown := markdown, preview_value := markdown,
                  copyBtn_disabled := False, downloadBtn_disabled := False\<rparr>)
              (''Done. '' @ String_of (int (length entries)) @ '' entries converted.''))
             \<lparr>meta_textContent :=
                ''Range: '' @ first @ '' to '' @ last_header
                  @ '' (UTC). Processed locally in your browser.''\<rparr>"
proof -
  have "toMarkdown h entries = Inr markdown"
    using convert_Inr [OF assms(2)] by simp
  then obtain first last_header where "range_of h entries = Inr (first, last_header)"
    using range_of_defined by blast
  then show ?thesis
    using assms by (auto simp: processFile_def Let_def)
qed

lemma trim_Nil: "trim [] = []"
  by (simp add: trim_def)

subsection \<open>The cleanup transform\<close>

text \<open>A text without an escape is left as it is, and only such a text is: every match
  makes the text shorter.\<close>

lemma cleanupText_fixed: "\<not> has_escape t \<Longrightarrow> cleanupText t = t"
  by (induction t rule: cleanupText.induct) auto

lemma length_cleanupText: "length (cleanupText t) \<le> length t"
  by (induction t rule: cleanupText.induct) auto

lemma cleanupText_shorter: "has_escape t \<Longrightarrow> length (cleanupText t) < length t"
proof (induction t rule: cleanupText.induct)
  case (3 a b cs)
  then show ?case using length_cleanupText [of cs] by (auto simp: less_Suc_eq_le)
qed auto

lemma cleanupText_fixed_iff: "cleanupText t = t \<longleftrightarrow> \<not> has_escape t"
  using cleanupText_fixed cleanupText_shorter by (metis less_irrefl)

lemma has_escape_Cons: "a \<noteq> CHR 0x5C \<Longrightarrow> has_escape (a # t) = has_escape t"
  by (cases t) auto

lemma has_double_escape_Cons: "a \<noteq> CHR 0x5C \<Longrightarrow> has_double_escape (a # t) = has_double_escape t"
  by (cases t rule: has_double_escape.cases) auto

lemma has_double_escape_Cons2:
  "b \<noteq> CHR 0x5C \<Longrightarrow> has_double_escape (a # b # t) = has_double_escape t"
  by (cases t) (auto simp: has_double_escape_Cons)

lemma has_escape_cleanupText: "has_escape (cleanupText s) \<longleftrightarrow> has_double_escape s"
proof (induction s rule: cleanupText.induct)
  case (3 a b cs)
  show ?case
  proof (cases "a = CHR 0x5C \<and> (b = CHR ''.'' \<or> b = CHR ''-'')")
    case True
    then have b: "b \<noteq> CHR 0x5C" by auto
    have "has_escape (cleanupText (a # b # cs)) = has_escape (cleanupText cs)"
      using True b by (simp add: has_escape_Cons)
    also have "\<dots> = has_double_escape cs"
      using True 3 by simp
    also have "\<dots> = has_double_escape (a # b # cs)"
      using has_double_escape_Cons2 [OF b, of a cs] by (rule sym)
    finally show ?thesis .
  next
    case False
    note nomatch = False
    then have IH: "has_escape (cleanupText (b # cs)) = has_double_escape (b # cs)"
      using 3 by blast
    have step: "cleanupText (a # b # cs) = a # cleanupText (b # cs)"
      using nomatch by auto
    show ?thesis
    proof (cases cs)
      case Nil
      then show ?thesis using nomatch by auto
    next
      case (Cons c r)
      show ?thesis
      proof (cases "b = CHR 0x5C \<and> (c = CHR ''.'' \<or> c = CHR ''-'')")
        case True
        then have "cleanupText (b # cs) = c # cleanupText r"
          using Cons by simp
        then have "has_escape (cleanupText (a # b # cs)) =
            (a = CHR 0x5C \<or> has_escape (cleanupText (b # cs)))"
          using True step by auto
        then show ?thesis using IH True Cons by auto
      next
        case False
        then have "cleanupText (b # cs) = b # cleanupText (c # r)"
          using Cons by auto
        then have "has_escape (cleanupText (a # b # cs)) = has_escape (cleanupText (b # cs))"
          using nomatch step by auto
        then show ?thesis using IH False Cons by auto
      qed
    qed
  qed
qed auto

text \<open>
  Claim C2, as the specification states it: applying the cleanup transform twice gives
  the same as applying it once, for every input. That fails on the text of two
  backslashes and a period: the first pass leaves the first backslash alone (a backslash
  follows it), removes the second and keeps the period, and the result, a backslash and a
  period, is a match for the second pass.
\<close>

theorem cleanupText_twice_counterexample:
  "cleanupText (cleanupText [CHR 0x5C, CHR 0x5C, CHR ''.'']) \<noteq>
     cleanupText [CHR 0x5C, CHR 0x5C, CHR ''.'']"
  by simp

text \<open>
  Claim C2, amended: applying the cleanup transform twice gives the same as applying it
  once exactly for the texts in which no two backslashes stand in front of a period or
  a hyphen.
\<close>

theorem cleanupText_idempotent_iff:
  "cleanupText (cleanupText s) = cleanupText s \<longleftrightarrow> \<not> has_double_escape s"
proof -
  have "cleanupText (cleanupText s) = cleanupText s \<longleftrightarrow> \<not> has_escape (cleanupText s)"
    by (rule cleanupText_fixed_iff)
  also have "\<dots> \<longleftrightarrow> \<not> has_double_escape s"
    by (simp only: has_escape_cleanupText)
  finally show ?thesis .
qed

text \<open>Claim C2, the amended property at work on the text \<open>1\. a\-b\<close> with its two
  escapes: one pass gives \<open>1. a-b\<close>, and a second pass changes nothing.\<close>

theorem cleanupText_idempotent_witness:
  "\<not> has_double_escape (''1'' @ [CHR 0x5C] @ ''. a'' @ [CHR 0x5C] @ ''-b'')
   \<and> cleanupText (''1'' @ [CHR 0x5C] @ ''. a'' @ [CHR 0x5C] @ ''-b'') = ''1. a-b''
   \<and> cleanupText (cleanupText (''1'' @ [CHR 0x5C] @ ''. a'' @ [CHR 0x5C] @ ''-b'')) =
       cleanupText (''1'' @ [CHR 0x5C] @ ''. a'' @ [CHR 0x5C] @ ''-b'')"
  using cleanupText_idempotent_iff [of "''1'' @ [CHR 0x5C] @ ''. a'' @ [CHR 0x5C] @ ''-b''"]
  by simp

subsection \<open>The instant of an entry\<close>

text \<open>
  Claim C1, as the specification states it: an entry whose \<open>creationDate\<close> does not
  parse resolves to the instant of its \<open>modifiedDate\<close>. In \<open>parseDate\<close> the fallback
  is \<open>||\<close>, which passes on to \<open>modifiedDate\<close> only when \<open>creationDate\<close> is falsy
  (absent, null or empty). An entry with \<open>creationDate\<close> \<open>"garbage"\<close> and a good
  \<open>modifiedDate\<close> resolves to the epoch, not to the instant of its \<open>modifiedDate\<close>.
\<close>

theorem parseDate_fallback_counterexample:
  "Date_parse example_host (Some (JStr ''garbage'')) = None
   \<and> Date_parse example_host (Some (JStr ''2023-05-01T14:03:09Z'')) = Some 1682949789000
   \<and> parseDate example_host
        (JObj [(''creationDate'', JStr ''garbage''),
               (''modifiedDate'', JStr ''2023-05-01T14:03:09Z'')]) = Inr 0"
  by code_simp

text \<open>
  Claim C1, amended. \<open>Date.parse\<close> of the empty string is \<open>NaN\<close>, as in every engine.
  Then for every entry the date is read from \<open>creationDate\<close> when that is present
  (truthy), and from \<open>modifiedDate\<close> when \<open>creationDate\<close> is absent or empty (falsy).
  \<^item> The instant: when the field read can be converted, the instant is what
    \<open>Date.parse\<close> gives for it, and the epoch when it does not parse, also when it is
    \<open>creationDate\<close> and \<open>modifiedDate\<close> would parse; when both fields are absent or
    empty, the instant is the epoch; when the field read is an object or an array that
    cannot be converted to a primitive value, \<open>parseDate\<close> does not return an instant but
    throws a \<open>TypeError\<close>.
  \<^item> The header of the block of an entry that is not \<open>null\<close> is rendered from
    \<open>new Date\<close> of the same field: it is the header of the epoch when the field is
    absent or empty or no valid date, the header of the time value otherwise, and
    rendering throws the \<open>TypeError\<close> when the field cannot be converted. When the field
    is absent, empty or a string on which \<open>new Date\<close> and \<open>Date.parse\<close> agree, as the
    standard demands, the header is the header of the resolved instant.
\<close>

theorem parseDate_resolution:
  assumes "Date_parse h (Some (JStr [])) = None"
  shows
    "(truthy (prop_of e ''creationDate'') \<and> \<not> date_throws (prop_of e ''creationDate'') \<longrightarrow>
        parseDate h e =
          Inr (case Date_parse h (prop_of e ''creationDate'') of Some t \<Rightarrow> t | None \<Rightarrow> 0))
     \<and> (date_throws (prop_of e ''creationDate'') \<longrightarrow>
        parseDate h e = Inl (TypeError (cannot_convert h)))
     \<and> (\<not> truthy (prop_of e ''creationDate'') \<and> truthy (prop_of e ''modifiedDate'')
          \<and> \<not> date_throws (prop_of e ''modifiedDate'') \<longrightarrow>
        parseDate h e =
          Inr (case Date_parse h (prop_of e ''modifiedDate'') of Some t \<Rightarrow> t | None \<Rightarrow> 0))
     \<and> (\<not> truthy (prop_of e ''creationDate'') \<and> date_throws (prop_of e ''modifiedDate'') \<longrightarrow>
        parseDate h e = Inl (TypeError (cannot_convert h)))
     \<and> (\<not> truthy (prop_of e ''creationDate'') \<and> \<not> truthy (prop_of e ''modifiedDate'') \<longrightarrow>
        parseDate h e = Inr 0)
     \<and> date_field e =
         (if truthy (prop_of e ''creationDate'') then prop_of e ''creationDate''
          else prop_of e ''modifiedDate'')
     \<and> (e \<noteq> JNull \<and> \<not> truthy (date_field e) \<longrightarrow>
        section_of h e =
          Inr (trim (''# 1970-01-01 00-00-00'' @ [CHR 0x0A, CHR 0x0A] @ getEntryText h e)))
     \<and> (e \<noteq> JNull \<and> truthy (date_field e) \<and> \<not> date_throws (date_field e) \<longrightarrow>
        section_of h e =
          Inr (trim (''# ''
                 @ (case Date_new h (date_field e) of
                      None \<Rightarrow> ''1970-01-01 00-00-00'' | Some t \<Rightarrow> format_utc t)
                 @ [CHR 0x0A, CHR 0x0A] @ getEntryText h e)))
     \<and> (e \<noteq> JNull \<and> date_throws (date_field e) \<longrightarrow>
        section_of h e = Inl (TypeError (cannot_convert h)))
     \<and> (e \<noteq> JNull \<and> parseDate h e = Inr t
          \<and> (\<not> truthy (date_field e)
              \<or> (\<exists>s. date_field e = Some (JStr s))
                 \<and> Date_new h (date_field e) = Date_parse h (date_field e)) \<longrightarrow>
        section_of h e =
          Inr (trim (''# '' @ format_utc t @ [CHR 0x0A, CHR 0x0A] @ getEntryText h e)))"
proof -
  let ?c = "prop_of e ''creationDate''" and ?m = "prop_of e ''modifiedDate''"
  have field: "date_field e = (if truthy ?c then ?c else ?m)"
    by (simp add: date_field_def or_js_def)
  have raw: "or_js (or_js ?c ?m) (Some (JStr [])) =
      (if truthy (date_field e) then date_field e else Some (JStr []))"
    by (simp add: date_field_def or_js_def)
  have parse: "parseDate h e =
      (if date_throws (date_field e) then Inl (TypeError (cannot_convert h))
       else if truthy (date_field e)
         then Inr (case Date_parse h (date_field e) of Some t \<Rightarrow> t | None \<Rightarrow> 0)
         else Inr 0)"
    using assms date_throws_truthy [of "date_field e"]
    by (auto simp: parseDate_def raw Date_parse_js_def split: option.splits)
  have p1: "truthy ?c \<and> \<not> date_throws ?c \<longrightarrow>
      parseDate h e = Inr (case Date_parse h ?c of Some t \<Rightarrow> t | None \<Rightarrow> 0)"
    by (simp add: parse field)
  have p2: "date_throws ?c \<longrightarrow> parseDate h e = Inl (TypeError (cannot_convert h))"
    using date_throws_truthy [of ?c] by (auto simp: parse field)
  have p3: "\<not> truthy ?c \<and> truthy ?m \<and> \<not> date_throws ?m \<longrightarrow>
      parseDate h e = Inr (case Date_parse h ?m of Some t \<Rightarrow> t | None \<Rightarrow> 0)"
    by (simp add: parse field)
  have p4: "\<not> truthy ?c \<and> date_throws ?m \<longrightarrow>
      parseDate h e = Inl (TypeError (cannot_convert h))"
    by (simp add: parse field)
  have p5: "\<not> truthy ?c \<and> \<not> truthy ?m \<longrightarrow> parseDate h e = Inr 0"
    using date_throws_truthy [of ?m] by (auto simp: parse field)
  have h1: "e \<noteq> JNull \<and> \<not> truthy (date_field e) \<longrightarrow>
      section_of h e =
        Inr (trim (''# 1970-01-01 00-00-00'' @ [CHR 0x0A, CHR 0x0A] @ getEntryText h e))"
    by (simp add: section_of_date formatTimestamp_falsy)
  have h2: "e \<noteq> JNull \<and> truthy (date_field e) \<and> \<not> date_throws (date_field e) \<longrightarrow>
      section_of h e =
        Inr (trim (''# ''
               @ (case Date_new h (date_field e) of
                    None \<Rightarrow> ''1970-01-01 00-00-00'' | Some t \<Rightarrow> format_utc t)
               @ [CHR 0x0A, CHR 0x0A] @ getEntryText h e))"
    by (simp add: section_of_date formatTimestamp_truthy)
  have h3: "e \<noteq> JNull \<and> date_throws (date_field e) \<longrightarrow>
      section_of h e = Inl (TypeError (cannot_convert h))"
    by (simp add: section_of_error)
  have h4: "e \<noteq> JNull \<and> parseDate h e = Inr t
        \<and> (\<not> truthy (date_field e)
            \<or> (\<exists>s. date_field e = Some (JStr s))
               \<and> Date_new h (date_field e) = Date_parse h (date_field e)) \<longrightarrow>
      section_of h e =
        Inr (trim (''# '' @ format_utc t @ [CHR 0x0A, CHR 0x0A] @ getEntryText h e))"
  proof (intro impI, elim conjE)
    assume e: "e \<noteq> JNull" and t: "parseDate h e = Inr t"
      and d: "\<not> truthy (date_field e)
            \<or> (\<exists>s. date_field e = Some (JStr s))
               \<and> Date_new h (date_field e) = Date_parse h (date_field e)"
    from d show "section_of h e =
        Inr (trim (''# '' @ format_utc t @ [CHR 0x0A, CHR 0x0A] @ getEntryText h e))"
    proof
      assume f: "\<not> truthy (date_field e)"
      then have "t = 0"
        using t date_throws_truthy [of "date_field e"]
        by (auto simp: parse split: if_splits)
      then show ?thesis
        using e f h1 by (simp add: format_utc_epoch)
    next
      assume s: "(\<exists>s. date_field e = Some (JStr s))
               \<and> Date_new h (date_field e) = Date_parse h (date_field e)"
      then have n: "\<not> date_throws (date_field e)"
        by auto
      show ?thesis
      proof (cases "truthy (date_field e)")
        case True
        then have "t = (case Date_parse h (date_field e) of Some t \<Rightarrow> t | None \<Rightarrow> 0)"
          using t n by (simp add: parse)
        then show ?thesis
          using e True n s h2 by (auto simp: format_utc_epoch split: option.splits)
      next
        case False
        then have "t = 0"
          using t n by (simp add: parse split: if_splits)
        then show ?thesis
          using e False h1 by (simp add: format_utc_epoch)
      qed
    qed
  qed
  show ?thesis
    using p1 p2 p3 p4 p5 field h1 h2 h3 h4 by blast
qed

text \<open>Claim C1, the amended property at work on seven entries: a good \<open>creationDate\<close>,
  with its block; a \<open>creationDate\<close> that does not parse, beside a good \<open>modifiedDate\<close>,
  with its block; an empty \<open>creationDate\<close> beside a good \<open>modifiedDate\<close>; a
  \<open>modifiedDate\<close> that does not parse; no date at all; a \<open>creationDate\<close> that is an
  object with a member \<open>toString\<close>, beside a good \<open>modifiedDate\<close>; and a
  \<open>modifiedDate\<close> that is an array with such an object.\<close>

theorem parseDate_resolution_witness:
  "parseDate example_host
      (JObj [(''creationDate'', JStr ''2023-05-01T14:03:09Z''), (''text'', JStr ''Hi'')])
     = Inr 1682949789000
   \<and> section_of example_host
      (JObj [(''creationDate'', JStr ''2023-05-01T14:03:09Z''), (''text'', JStr ''Hi'')])
     = Inr (''# 2023-05-01 14-03-09'' @ [CHR 0x0A, CHR 0x0A] @ ''Hi'')
   \<and> parseDate example_host
        (JObj [(''creationDate'', JStr ''garbage''),
               (''modifiedDate'', JStr ''2023-05-01T14:03:09Z'')]) = Inr 0
   \<and> section_of example_host
        (JObj [(''creationDate'', JStr ''garbage''),
               (''modifiedDate'', JStr ''2023-05-01T14:03:09Z'')])
     = Inr (''# 1970-01-01 00-00-00'' @ [CHR 0x0A, CHR 0x0A] @ ''[No content]'')
   \<and> parseDate example_host
        (JObj [(''creationDate'', JStr []), (''modifiedDate'', JStr ''2023-05-01T14:03:09Z'')])
     = Inr 1682949789000
   \<and> parseDate example_host (JObj [(''modifiedDate'', JStr ''garbage'')]) = Inr 0
   \<and> parseDate example_host (JObj [(''text'', JStr ''Hello'')]) = Inr 0
   \<and> parseDate example_host
        (JObj [(''creationDate'', JObj [(''toString'', JNull)]),
               (''modifiedDate'', JStr ''2023-05-01T14:03:09Z'')])
     = Inl (TypeError ''Cannot convert object to primitive value'')
   \<and> section_of example_host
        (JObj [(''creationDate'', JObj [(''toString'', JNull)]),
               (''modifiedDate'', JStr ''2023-05-01T14:03:09Z'')])
     = Inl (TypeError ''Cannot convert object to primitive value'')
   \<and> parseDate example_host
        (JObj [(''modifiedDate'', JArr [JNum 1, JObj [(''toString'', JStr ''x'')]])])
     = Inl (TypeError ''Cannot convert object to primitive value'')"
proof -
  let ?d = "JStr ''2023-05-01T14:03:09Z''"
  let ?e1 = "JObj [(''creationDate'', ?d), (''text'', JStr ''Hi'')]"
  let ?e2 = "JObj [(''creationDate'', JStr ''garbage''), (''modifiedDate'', ?d)]"
  let ?e3 = "JObj [(''creationDate'', JStr []), (''modifiedDate'', ?d)]"
  let ?e4 = "JObj [(''modifiedDate'', JStr ''garbage'')]"
  let ?e5 = "JObj [(''text'', JStr ''Hello'')]"
  let ?e6 = "JObj [(''creationDate'', JObj [(''toString'', JNull)]), (''modifiedDate'', ?d)]"
  let ?e7 = "JObj [(''modifiedDate'', JArr [JNum 1, JObj [(''toString'', JStr ''x'')]])]"
  note r = parseDate_resolution [OF example_host_empty]
  have msg: "cannot_convert example_host = ''Cannot convert object to primitive value''"
    by code_simp
  have new: "Date_new example_host (Some ?d) = Date_parse example_host (Some ?d)"
    "Date_new example_host (Some (JStr ''garbage''))
       = Date_parse example_host (Some (JStr ''garbage''))"
    by code_simp+
  have f: "date_field ?e1 = Some ?d" "date_field ?e2 = Some (JStr ''garbage'')"
    "date_field ?e6 = Some (JObj [(''toString'', JNull)])"
    by (simp_all add: date_field_def or_js_def)
  have b: "trim (''# '' @ format_utc 1682949789000 @ [CHR 0x0A, CHR 0x0A]
        @ getEntryText example_host ?e1)
      = ''# 2023-05-01 14-03-09'' @ [CHR 0x0A, CHR 0x0A] @ ''Hi''"
    "trim (''# '' @ format_utc 0 @ [CHR 0x0A, CHR 0x0A] @ getEntryText example_host ?e2)
      = ''# 1970-01-01 00-00-00'' @ [CHR 0x0A, CHR 0x0A] @ ''[No content]''"
    by code_simp+
  have c1: "parseDate example_host ?e1 = Inr 1682949789000"
    using r [of ?e1] by (simp add: example_host_date)
  have s1: "section_of example_host ?e1
      = Inr (''# 2023-05-01 14-03-09'' @ [CHR 0x0A, CHR 0x0A] @ ''Hi'')"
    using r [of ?e1 1682949789000] c1 f new b by (auto simp: example_host_date)
  have c2: "parseDate example_host ?e2 = Inr 0"
    using r [of ?e2] by (simp add: example_host_garbage)
  have s2: "section_of example_host ?e2
      = Inr (''# 1970-01-01 00-00-00'' @ [CHR 0x0A, CHR 0x0A] @ ''[No content]'')"
    using r [of ?e2 0] c2 f new b by (auto simp: example_host_garbage)
  have c3: "parseDate example_host ?e3 = Inr 1682949789000"
    using r [of ?e3] by (simp add: example_host_date)
  have c4: "parseDate example_host ?e4 = Inr 0"
    using r [of ?e4] by (simp add: example_host_garbage)
  have c5: "parseDate example_host ?e5 = Inr 0"
    using r [of ?e5] by simp
  have c6: "parseDate example_host ?e6
      = Inl (TypeError ''Cannot convert object to primitive value'')"
    using r [of ?e6] by (simp add: msg)
  have s6: "section_of example_host ?e6
      = Inl (TypeError ''Cannot convert object to primitive value'')"
    using r [of ?e6] f by (simp add: msg)
  have c7: "parseDate example_host ?e7
      = Inl (TypeError ''Cannot convert object to primitive value'')"
    using r [of ?e7] by (simp add: msg)
  show ?thesis
    using c1 s1 c2 s2 c3 c4 c5 c6 s6 c7 by blast
qed

subsection \<open>One block for every entry\<close>

text \<open>
  For entries none of which is \<open>null\<close> and none of which has a date that cannot be
  converted to a primitive value, \<open>toMarkdown\<close> renders one block for every entry and
  joins the blocks with the separator.
\<close>

theorem sections_total:
  assumes "\<forall>e \<in> set entries. e \<noteq> JNull \<and> \<not> date_throws (date_field e)"
  shows "\<exists>ss. sections h entries = Inr ss \<and> length ss = length entries
           \<and> toMarkdown h entries = Inr (join separator ss)"
proof -
  have sorted_entries: "sortEntries h entries = Inr (sort_key (instant h) entries)"
    using assms by (simp add: sortEntries_defined)
  have "\<forall>e \<in> set (sort_key (instant h) entries). \<exists>s. section_of h e = Inr s"
  proof
    fix e assume "e \<in> set (sort_key (instant h) entries)"
    then have "e \<noteq> JNull \<and> \<not> date_throws (date_field e)" using assms by simp
    then show "\<exists>s. section_of h e = Inr s"
      using section_of_error [of h e] by (cases "section_of h e") auto
  qed
  then obtain ss where ss: "sections h entries = Inr ss"
    using map_exn_total [of "sort_key (instant h) entries" "section_of h"]
    by (auto simp: sections_def sorted_entries)
  then have "list_all2 (\<lambda>x y. section_of h x = Inr y) (sort_key (instant h) entries) ss"
    using map_exn_Inr by (simp add: sections_def sorted_entries)
  then have "length ss = length entries"
    by (simp add: list_all2_lengthD [symmetric])
  then show ?thesis
    using ss by (simp add: toMarkdown_def)
qed

text \<open>The property at work on three entries, one of them an array: three blocks, in
  the order of the instants.\<close>

theorem sections_total_witness:
  "sections example_host
     [JObj [(''creationDate'', JStr ''2023-05-01T14:03:09Z''), (''text'', JStr ''second'')],
      JArr [], JObj [(''text'', JStr ''first'')]]
   = Inr [''# 1970-01-01 00-00-00'' @ [CHR 0x0A, CHR 0x0A] @ ''[No content]'',
          ''# 1970-01-01 00-00-00'' @ [CHR 0x0A, CHR 0x0A] @ ''first'',
          ''# 2023-05-01 14-03-09'' @ [CHR 0x0A, CHR 0x0A] @ ''second'']"
proof -
  let ?es = "[JObj [(''creationDate'', JStr ''2023-05-01T14:03:09Z''), (''text'', JStr ''second'')],
      JArr [], JObj [(''text'', JStr ''first'')]]"
  have "\<forall>e \<in> set ?es. e \<noteq> JNull \<and> \<not> date_throws (date_field e)"
    by (simp add: date_field_def or_js_def)
  then obtain ss where "sections example_host ?es = Inr ss" and "length ss = length ?es"
    using sections_total [of ?es example_host] by blast
  moreover have "sections example_host ?es = Inr [''# 1970-01-01 00-00-00'' @ [CHR 0x0A, CHR 0x0A] @ ''[No content]'',
          ''# 1970-01-01 00-00-00'' @ [CHR 0x0A, CHR 0x0A] @ ''first'',
          ''# 2023-05-01 14-03-09'' @ [CHR 0x0A, CHR 0x0A] @ ''second'']"
    by code_simp
  ultimately show ?thesis by simp
qed

text \<open>
  Claim C3 states this for every document, malformed entries included. For an entry
  \<open>null\<close> it fails: \<open>toMarkdown\<close> reads \<open>entry.creationDate\<close> where \<open>parseDate\<close> and
  \<open>getEntryText\<close> read \<open>entry?.creationDate\<close> and \<open>entry?.text\<close>, so the entry that the
  sort and the body accept makes the rendering throw a \<open>TypeError\<close>, and the conversion
  of the whole document fails: no block is rendered, whatever the other entries are. The
  error is the one of the read of \<open>null\<close>, unless another entry has a date that cannot
  be converted to a primitive value: then the sort has thrown before, the \<open>TypeError\<close>
  of the conversion. The document \<open>{"entries":[null]}\<close> is the smallest one.
\<close>

theorem null_entry_fails:
  \<open>toMarkdown h (xs @ JNull # ys)
     = Inl (TypeError (if \<exists>e \<in> set (xs @ ys). date_throws (date_field e)
                       then cannot_convert h else null_read h ''creationDate''))
   \<and> sections h (xs @ JNull # ys)
     = Inl (TypeError (if \<exists>e \<in> set (xs @ ys). date_throws (date_field e)
                       then cannot_convert h else null_read h ''creationDate''))
   \<and> toMarkdown h [JNull] = Inl (TypeError (null_read h ''creationDate''))
   \<and> convert example_host
        \<lparr>file_name = ''Journal.json'', file_text = Inr ''{"entries":[null]}'', file_zip = Inl []\<rparr>
        True
      = Inl (TypeError (''Cannot read properties of null (reading '' @ [CHR 0x27]
               @ ''creationDate'' @ [CHR 0x27] @ '')''))\<close>
proof -
  let ?es = "xs @ JNull # ys"
  let ?x = "TypeError (if \<exists>e \<in> set (xs @ ys). date_throws (date_field e)
                       then cannot_convert h else null_read h ''creationDate'')"
  have null_date: "\<not> date_throws (date_field JNull)"
    by (simp add: date_field_def or_js_def)
  have s: "sections h ?es = Inl ?x"
  proof (cases "\<exists>e \<in> set (xs @ ys). date_throws (date_field e)")
    case True
    then obtain e where e: "e \<in> set ?es" "date_throws (date_field e)"
      by auto
    then have "e \<noteq> JNull"
      using null_date by auto
    then have "2 \<le> length ?es"
      using e(1) by (cases xs; cases ys) auto
    then have "sortEntries h ?es = Inl (TypeError (cannot_convert h))"
      using e by (rule sortEntries_throws)
    then show ?thesis
      using True by (simp add: sections_def)
  next
    case False
    then have conv: "\<forall>e \<in> set ?es. \<not> date_throws (date_field e)"
      using null_date by auto
    then have sorted_entries: "sortEntries h ?es = Inr (sort_key (instant h) ?es)"
      by (rule sortEntries_defined)
    have "map_exn (section_of h) (sort_key (instant h) ?es)
        = Inl (TypeError (null_read h ''creationDate''))"
    proof (rule map_exn_Inl [where z = JNull])
      show "JNull \<in> set (sort_key (instant h) ?es)"
        by simp
      show "section_of h JNull = Inl (TypeError (null_read h ''creationDate''))"
        by (simp add: section_of_error)
      show "e' = TypeError (null_read h ''creationDate'')"
        if "x \<in> set (sort_key (instant h) ?es)" "section_of h x = Inl e'" for x e'
        using that conv by (auto simp: section_of_error)
    qed
    then show ?thesis
      using False by (simp add: sections_def sorted_entries)
  qed
  then have m: "toMarkdown h ?es = Inl ?x"
    by (simp add: toMarkdown_def)
  have "section_of h JNull = Inl (TypeError (null_read h ''creationDate''))"
    by (simp add: section_of_error)
  then have one: "toMarkdown h [JNull] = Inl (TypeError (null_read h ''creationDate''))"
    by (simp add: toMarkdown_def sections_def sortEntries_short)
  have \<open>convert example_host
        \<lparr>file_name = ''Journal.json'', file_text = Inr ''{"entries":[null]}'', file_zip = Inl []\<rparr>
        True
      = Inl (TypeError (''Cannot read properties of null (reading '' @ [CHR 0x27]
               @ ''creationDate'' @ [CHR 0x27] @ '')''))\<close>
    by code_simp
  then show ?thesis using s m one by simp
qed

subsection \<open>The order of the entries\<close>

text \<open>
  Claim C4: the sort over entries is stable. Whenever \<open>sortEntries\<close> returns, it returns
  the entries in ascending order of their instants, it returns every entry once, and for
  every result of \<open>parseDate\<close> the entries with that result stand in the output in the
  order in which they stand in the input. It returns when every entry resolves to an
  instant, and it returns a list of fewer than two entries as it is; with two entries or
  more, of which one has a date that cannot be converted, it throws the \<open>TypeError\<close> of
  \<open>parseDate\<close>.
\<close>

theorem sortEntries_stable:
  "(\<forall>ss. sortEntries h entries = Inr ss \<longrightarrow>
       sorted_wrt (\<lambda>a b. \<exists>s t. parseDate h a = Inr s \<and> parseDate h b = Inr t \<and> s \<le> t) ss
     \<and> mset ss = mset entries
     \<and> (\<forall>r. filter (\<lambda>e. parseDate h e = r) ss = filter (\<lambda>e. parseDate h e = r) entries))
   \<and> ((\<forall>e \<in> set entries. \<exists>t. parseDate h e = Inr t) \<longrightarrow>
        (\<exists>ss. sortEntries h entries = Inr ss))
   \<and> (length entries \<le> 1 \<longrightarrow> sortEntries h entries = Inr entries)
   \<and> (2 \<le> length entries \<and> (\<exists>e \<in> set entries. \<exists>x. parseDate h e = Inl x) \<longrightarrow>
        sortEntries h entries = Inl (TypeError (cannot_convert h)))"
proof (intro conjI allI impI)
  fix ss
  assume ss: "sortEntries h entries = Inr ss"
  then have eq: "ss = sort_key (instant h) entries"
    by (rule sortEntries_eq)
  show "mset ss = mset entries"
    by (simp add: eq)
  from sortEntries_returns [OF ss]
  have "sorted_wrt (\<lambda>a b. \<exists>s t. parseDate h a = Inr s \<and> parseDate h b = Inr t \<and> s \<le> t) ss
      \<and> (\<forall>r. filter (\<lambda>e. parseDate h e = r) ss = filter (\<lambda>e. parseDate h e = r) entries)"
  proof
    assume short: "length entries \<le> 1"
    then have "sortEntries h entries = Inr entries"
      by (rule sortEntries_short)
    then have same: "ss = entries"
      using ss by simp
    have "sorted_wrt P entries" for P :: "json \<Rightarrow> json \<Rightarrow> bool"
      using short by (cases entries) auto
    then show ?thesis
      by (simp add: same)
  next
    assume conv: "\<forall>e \<in> set entries. \<not> date_throws (date_field e)"
    have inst: "parseDate h e = Inr (instant h e)" if "e \<in> set entries" for e
      using conv that parseDate_Inr_iff [of h e] by (auto simp: instant_def)
    have "sorted (map (instant h) ss)"
      by (simp add: eq)
    then have "sorted_wrt (\<lambda>a b. instant h a \<le> instant h b) ss"
      by (simp add: sorted_map)
    then have ord: "sorted_wrt
        (\<lambda>a b. \<exists>s t. parseDate h a = Inr s \<and> parseDate h b = Inr t \<and> s \<le> t) ss"
      by (rule sorted_wrt_mono_rel [rotated]) (simp add: eq inst)
    have stable: "filter (\<lambda>e. parseDate h e = r) ss = filter (\<lambda>e. parseDate h e = r) entries"
      for r
    proof (cases r)
      case (Inl x)
      have "filter (\<lambda>e. parseDate h e = r) ss = []"
        unfolding filter_empty_conv using inst Inl by (auto simp: eq)
      moreover have "filter (\<lambda>e. parseDate h e = r) entries = []"
        unfolding filter_empty_conv using inst Inl by auto
      ultimately show ?thesis
        by simp
    next
      case (Inr t)
      have "filter (\<lambda>e. parseDate h e = r) ss = filter (\<lambda>e. instant h e = t) ss"
        by (rule filter_cong) (auto simp: eq inst Inr)
      also have "\<dots> = filter (\<lambda>e. instant h e = t) entries"
        unfolding eq by (rule sort_key_stable)
      also have "\<dots> = filter (\<lambda>e. parseDate h e = r) entries"
        by (rule filter_cong) (auto simp: inst Inr)
      finally show ?thesis .
    qed
    show ?thesis
      using ord stable by blast
  qed
  then show
    "sorted_wrt (\<lambda>a b. \<exists>s t. parseDate h a = Inr s \<and> parseDate h b = Inr t \<and> s \<le> t) ss"
    and "filter (\<lambda>e. parseDate h e = r) ss = filter (\<lambda>e. parseDate h e = r) entries" for r
    by blast+
next
  assume "\<forall>e \<in> set entries. \<exists>t. parseDate h e = Inr t"
  then have "\<forall>e \<in> set entries. \<not> date_throws (date_field e)"
    by (simp add: parseDate_Inr_iff)
  then show "\<exists>ss. sortEntries h entries = Inr ss"
    by (simp add: sortEntries_defined)
next
  assume "length entries \<le> 1"
  then show "sortEntries h entries = Inr entries"
    by (rule sortEntries_short)
next
  assume "2 \<le> length entries \<and> (\<exists>e \<in> set entries. \<exists>x. parseDate h e = Inl x)"
  then show "sortEntries h entries = Inl (TypeError (cannot_convert h))"
    using sortEntries_throws [of entries _ h] by (auto simp: parseDate_Inl_iff)
qed

text \<open>Claim C4 at work: of two entries of 1 May 2023 around an entry of 1 January
  2023, the entry of January comes first and the two of May keep their order; an entry
  whose date is an object with a member \<open>toString\<close> is returned when it is alone, and
  makes the sort throw when it stands beside another entry.\<close>

theorem sortEntries_stable_witness:
  "sortEntries example_host
      [JObj [(''creationDate'', JStr ''2023-05-01T14:03:09Z''), (''text'', JStr ''first'')],
       JObj [(''creationDate'', JStr ''2023-01-01T00:00:00Z''), (''text'', JStr ''January'')],
       JObj [(''creationDate'', JStr ''2023-05-01T14:03:09Z''), (''text'', JStr ''second'')]]
     = Inr
      [JObj [(''creationDate'', JStr ''2023-01-01T00:00:00Z''), (''text'', JStr ''January'')],
       JObj [(''creationDate'', JStr ''2023-05-01T14:03:09Z''), (''text'', JStr ''first'')],
       JObj [(''creationDate'', JStr ''2023-05-01T14:03:09Z''), (''text'', JStr ''second'')]]
   \<and> filter (\<lambda>e. parseDate example_host e = Inr 1682949789000)
      [JObj [(''creationDate'', JStr ''2023-01-01T00:00:00Z''), (''text'', JStr ''January'')],
       JObj [(''creationDate'', JStr ''2023-05-01T14:03:09Z''), (''text'', JStr ''first'')],
       JObj [(''creationDate'', JStr ''2023-05-01T14:03:09Z''), (''text'', JStr ''second'')]]
     =
      [JObj [(''creationDate'', JStr ''2023-05-01T14:03:09Z''), (''text'', JStr ''first'')],
       JObj [(''creationDate'', JStr ''2023-05-01T14:03:09Z''), (''text'', JStr ''second'')]]
   \<and> sortEntries example_host [JObj [(''creationDate'', JObj [(''toString'', JNull)])]]
     = Inr [JObj [(''creationDate'', JObj [(''toString'', JNull)])]]
   \<and> sortEntries example_host
      [JObj [(''creationDate'', JObj [(''toString'', JNull)])],
       JObj [(''creationDate'', JStr ''2023-05-01T14:03:09Z''), (''text'', JStr ''first'')]]
     = Inl (TypeError ''Cannot convert object to primitive value'')"
proof -
  let ?a = "JObj [(''creationDate'', JStr ''2023-05-01T14:03:09Z''), (''text'', JStr ''first'')]"
  let ?b = "JObj [(''creationDate'', JStr ''2023-01-01T00:00:00Z''), (''text'', JStr ''January'')]"
  let ?c = "JObj [(''creationDate'', JStr ''2023-05-01T14:03:09Z''), (''text'', JStr ''second'')]"
  let ?x = "JObj [(''creationDate'', JObj [(''toString'', JNull)])]"
  have s: "sortEntries example_host [?a, ?b, ?c] = Inr [?b, ?a, ?c]"
    by code_simp
  have f: "filter (\<lambda>e. parseDate example_host e = Inr 1682949789000) [?a, ?b, ?c] = [?a, ?c]"
    by code_simp
  have x: "parseDate example_host ?x = Inl (TypeError ''Cannot convert object to primitive value'')"
    by code_simp
  have msg: "cannot_convert example_host = ''Cannot convert object to primitive value''"
    by code_simp
  have "filter (\<lambda>e. parseDate example_host e = Inr 1682949789000) [?b, ?a, ?c]
      = filter (\<lambda>e. parseDate example_host e = Inr 1682949789000) [?a, ?b, ?c]"
    using sortEntries_stable [of example_host "[?a, ?b, ?c]"] s by blast
  then have stable: "filter (\<lambda>e. parseDate example_host e = Inr 1682949789000) [?b, ?a, ?c]
      = [?a, ?c]"
    by (simp only: f)
  have one: "sortEntries example_host [?x] = Inr [?x]"
    using sortEntries_stable [of example_host "[?x]"] by simp
  have "2 \<le> length [?x, ?a] \<and> (\<exists>e \<in> set [?x, ?a]. \<exists>e'. parseDate example_host e = Inl e')"
    using x by simp
  then have two: "sortEntries example_host [?x, ?a]
      = Inl (TypeError ''Cannot convert object to primitive value'')"
    using sortEntries_stable [of example_host "[?x, ?a]"] by (simp only: msg)
  show ?thesis
    using s stable one two by blast
qed

subsection \<open>Entries without a date\<close>

lemma section_of_undated:
  assumes "a \<noteq> JNull" "prop_of a ''creationDate'' = None" "prop_of a ''modifiedDate'' = None"
  shows "section_of h a =
           Inr (trim (''# 1970-01-01 00-00-00'' @ [CHR 0x0A, CHR 0x0A] @ getEntryText h a))"
  using assms by (simp add: section_of_date formatTimestamp_falsy date_field_def or_js_def)

text \<open>
  Claim C5, as the specification states it: an entry with neither date sorts before
  every entry that has a valid date. The entry without a date resolves to the epoch, and
  a valid date before 1970 is an instant below zero: an entry of 20 July 1969 sorts
  before the entry without a date.
\<close>

theorem undated_entry_counterexample:
  "Date_parse example_host (Some (JStr ''1969-07-20T20:17:40Z'')) = Some (- 14182940000)
   \<and> sortEntries example_host
        [JObj [(''text'', JStr ''no date'')],
         JObj [(''creationDate'', JStr ''1969-07-20T20:17:40Z''), (''text'', JStr ''moon'')]]
      = Inr [JObj [(''creationDate'', JStr ''1969-07-20T20:17:40Z''), (''text'', JStr ''moon'')],
             JObj [(''text'', JStr ''no date'')]]"
  by code_simp

text \<open>
  Claim C5, amended. \<open>Date.parse\<close> of the empty string is \<open>NaN\<close>. Then an entry with
  neither \<open>creationDate\<close> nor \<open>modifiedDate\<close> resolves to the epoch; in the sorted
  entries, which \<open>sortEntries\<close> returns whenever every entry resolves to an instant, it
  stands before every entry whose date resolves to an instant after the epoch; and, when
  the entry is not \<open>null\<close>, the header of its rendered block is exactly
  \<open># 1970-01-01 00-00-00\<close>.
\<close>

theorem undated_entry:
  assumes "Date_parse h (Some (JStr [])) = None"
    and "prop_of a ''creationDate'' = None" and "prop_of a ''modifiedDate'' = None"
  shows "parseDate h a = Inr 0
    \<and> (\<forall>ss i j. sortEntries h entries = Inr ss \<and> i < length entries \<and> j < length entries
           \<and> ss ! i = a \<and> (\<exists>t. parseDate h (ss ! j) = Inr t \<and> 0 < t) \<longrightarrow> i < j)
    \<and> ((\<forall>e \<in> set entries. \<exists>t. parseDate h e = Inr t) \<longrightarrow>
         (\<exists>ss. sortEntries h entries = Inr ss))
    \<and> (a \<noteq> JNull \<longrightarrow>
         section_of h a =
           Inr (trim (''# 1970-01-01 00-00-00'' @ [CHR 0x0A, CHR 0x0A] @ getEntryText h a)))"
proof -
  have zero: "parseDate h a = Inr 0"
    using assms by (simp add: parseDate_def or_js_def Date_parse_js_def)
  have before: "i < j"
    if ss: "sortEntries h entries = Inr ss" and "i < length entries" "j < length entries"
      "ss ! i = a" and t: "parseDate h (ss ! j) = Inr t" "0 < t" for ss i j t
  proof (rule ccontr)
    assume "\<not> i < j"
    then have "j \<le> i" by simp
    moreover have "sorted (map (instant h) ss)"
      by (simp add: sortEntries_eq [OF ss])
    ultimately have "map (instant h) ss ! j \<le> map (instant h) ss ! i"
      using that(2) by (intro sorted_nth_mono) (simp_all add: length_sortEntries [OF ss])
    then show False
      using that zero \<open>j \<le> i\<close> by (simp add: length_sortEntries [OF ss] instant_def)
  qed
  have returns: "\<exists>ss. sortEntries h entries = Inr ss"
    if "\<forall>e \<in> set entries. \<exists>t. parseDate h e = Inr t"
    using that by (simp add: parseDate_Inr_iff sortEntries_defined)
  show ?thesis
    using zero before returns section_of_undated [OF _ assms(2,3)] by blast
qed

text \<open>Claim C5, the amended property at work: an entry without a date behind an
  entry of 1 May 2023 comes first in the sorted entries, and its block has the header of
  the epoch.\<close>

theorem undated_entry_witness:
  "parseDate example_host (JObj [(''text'', JStr ''no date'')]) = Inr 0
   \<and> sortEntries example_host
        [JObj [(''creationDate'', JStr ''2023-05-01T14:03:09Z''), (''text'', JStr ''May'')],
         JObj [(''text'', JStr ''no date'')]]
      = Inr [JObj [(''text'', JStr ''no date'')],
             JObj [(''creationDate'', JStr ''2023-05-01T14:03:09Z''), (''text'', JStr ''May'')]]
   \<and> section_of example_host (JObj [(''text'', JStr ''no date'')])
      = Inr (''# 1970-01-01 00-00-00'' @ [CHR 0x0A, CHR 0x0A] @ ''no date'')"
proof -
  let ?a = "JObj [(''text'', JStr ''no date'')]"
  let ?b = "JObj [(''creationDate'', JStr ''2023-05-01T14:03:09Z''), (''text'', JStr ''May'')]"
  have c: "prop_of ?a ''creationDate'' = None" and m: "prop_of ?a ''modifiedDate'' = None"
    by simp_all
  note u = undated_entry [OF example_host_empty c m, of "[?b, ?a]"]
  have s: "sortEntries example_host [?b, ?a] = Inr [?a, ?b]"
    by code_simp
  have t: "trim (''# 1970-01-01 00-00-00'' @ [CHR 0x0A, CHR 0x0A] @ getEntryText example_host ?a)
      = ''# 1970-01-01 00-00-00'' @ [CHR 0x0A, CHR 0x0A] @ ''no date''"
    by code_simp
  have z: "parseDate example_host ?a = Inr 0"
    using u by blast
  have "section_of example_host ?a =
      Inr (trim (''# 1970-01-01 00-00-00'' @ [CHR 0x0A, CHR 0x0A] @ getEntryText example_host ?a))"
    using u by blast
  then have sec: "section_of example_host ?a =
      Inr (''# 1970-01-01 00-00-00'' @ [CHR 0x0A, CHR 0x0A] @ ''no date'')"
    by (simp only: t)
  show ?thesis
    using z s sec by blast
qed

subsection \<open>The journal of an archive\<close>

text \<open>The first element of a stable sort by key is the first of the least elements: all
  elements in front of it in the input have a greater key, and no element behind it has a
  smaller one.\<close>

lemma hd_sort_key_first_least:
  fixes k :: "'a \<Rightarrow> 'b::linorder"
  assumes "xs \<noteq> []"
  shows "\<exists>pre post. xs = pre @ hd (sort_key k xs) # post
           \<and> (\<forall>d \<in> set pre. k (hd (sort_key k xs)) < k d)
           \<and> (\<forall>d \<in> set post. k (hd (sort_key k xs)) \<le> k d)"
  using assms
proof (induction xs)
  case Nil
  then show ?case by simp
next
  case (Cons x xs)
  show ?case
  proof (cases "xs = []")
    case True
    then show ?thesis by (intro exI [of _ "[]"]) simp
  next
    case False
    define m where "m = hd (sort_key k xs)"
    have "length (sort_key k xs) = length xs"
      by simp
    then have "sort_key k xs \<noteq> []"
      using False by (metis length_0_conv)
    then obtain rest where srt: "sort_key k xs = m # rest"
      using m_def by (cases "sort_key k xs") auto
    from Cons.IH [OF False] obtain pre post where
      split: "xs = pre @ m # post"
      and pre: "\<forall>d \<in> set pre. k m < k d"
      and post: "\<forall>d \<in> set post. k m \<le> k d"
      unfolding m_def by blast
    show ?thesis
    proof (cases "k x \<le> k m")
      case True
      then have hd: "hd (sort_key k (x # xs)) = x"
        using srt by simp
      have "\<forall>d \<in> set xs. k x \<le> k d"
        using split pre post True by auto
      then show ?thesis
        unfolding hd by (intro exI [of _ "[]"] exI [of _ xs]) simp
    next
      case False
      then have hd: "hd (sort_key k (x # xs)) = m"
        using srt by simp
      show ?thesis
        unfolding hd using split pre post False
        by (intro exI [of _ "x # pre"] exI [of _ post]) auto
    qed
  qed
qed

lemma sort_candidates_Cons:
  assumes "cs \<noteq> []"
  shows "\<exists>rest. sort_candidates cs = Inr (hd (sort_key length cs) # rest)"
proof -
  have "length (sort_key length cs) = length cs"
    by simp
  then have "sort_key length cs \<noteq> []"
    using assms by (metis length_0_conv)
  then show ?thesis
    unfolding sort_candidates_eq by (cases "sort_key length cs") auto
qed

text \<open>
  Claim C6: when several streams of an archive have a name that ends, without regard to
  case, with \<open>journal.json\<close>, \<open>parseJournalFromZip\<close> reads the one with the shortest
  name, and of several shortest names the first in the order of enumeration: every
  candidate in front of the selected one is longer, and no candidate behind it is
  shorter. In particular an archive with \<open>Journal.json\<close> and \<open>Export/Journal.json\<close>, in
  either order, has its \<open>Journal.json\<close> read.
\<close>

theorem journal_selection:
  "(file_zip f = Inr files \<and> candidates_of (map fst files) \<noteq> [] \<longrightarrow>
      (\<exists>c pre post.
          parseJournalFromZip h f = read_journal h files c
          \<and> candidates_of (map fst files) = pre @ c # post
          \<and> (\<forall>d \<in> set pre. length c < length d)
          \<and> (\<forall>d \<in> set post. length c \<le> length d)))
   \<and> parseJournalFromZip h
        \<lparr>file_name = n, file_text = t,
         file_zip = Inr [(''Journal.json'', x), (''Export/Journal.json'', y)]\<rparr>
       = read_journal h [(''Journal.json'', x), (''Export/Journal.json'', y)] ''Journal.json''
   \<and> parseJournalFromZip h
        \<lparr>file_name = n, file_text = t,
         file_zip = Inr [(''Export/Journal.json'', y), (''Journal.json'', x)]\<rparr>
       = read_journal h [(''Export/Journal.json'', y), (''Journal.json'', x)] ''Journal.json''"
proof (intro conjI impI)
  assume a: "file_zip f = Inr files \<and> candidates_of (map fst files) \<noteq> []"
  define cs where "cs = candidates_of (map fst files)"
  define c where "c = hd (sort_key length cs)"
  have ne: "cs \<noteq> []" using a cs_def by simp
  from hd_sort_key_first_least [OF ne, of length] obtain pre post where
    "cs = pre @ c # post" "\<forall>d \<in> set pre. length c < length d"
    "\<forall>d \<in> set post. length c \<le> length d"
    unfolding c_def by blast
  moreover obtain rest where "sort_candidates cs = Inr (c # rest)"
    using sort_candidates_Cons [OF ne] c_def by blast
  then have "parseJournalFromZip h f = read_journal h files c"
    using a ne by (simp add: parseJournalFromZip_def cs_def [symmetric])
  ultimately show "\<exists>c pre post.
          parseJournalFromZip h f = read_journal h files c
          \<and> candidates_of (map fst files) = pre @ c # post
          \<and> (\<forall>d \<in> set pre. length c < length d)
          \<and> (\<forall>d \<in> set post. length c \<le> length d)"
    unfolding cs_def by blast
next
  have c1: "candidates_of [''Journal.json'', ''Export/Journal.json'']
      = [''Journal.json'', ''Export/Journal.json'']"
    by code_simp
  have s1: "sort_candidates [''Journal.json'', ''Export/Journal.json'']
      = Inr [''Journal.json'', ''Export/Journal.json'']"
    by code_simp
  show "parseJournalFromZip h
        \<lparr>file_name = n, file_text = t,
         file_zip = Inr [(''Journal.json'', x), (''Export/Journal.json'', y)]\<rparr>
       = read_journal h [(''Journal.json'', x), (''Export/Journal.json'', y)] ''Journal.json''"
    by (simp add: parseJournalFromZip_def c1 s1)
next
  have c2: "candidates_of [''Export/Journal.json'', ''Journal.json'']
      = [''Export/Journal.json'', ''Journal.json'']"
    by code_simp
  have s2: "sort_candidates [''Export/Journal.json'', ''Journal.json'']
      = Inr [''Journal.json'', ''Export/Journal.json'']"
    by code_simp
  show "parseJournalFromZip h
        \<lparr>file_name = n, file_text = t,
         file_zip = Inr [(''Export/Journal.json'', y), (''Journal.json'', x)]\<rparr>
       = read_journal h [(''Export/Journal.json'', y), (''Journal.json'', x)] ''Journal.json''"
    by (simp add: parseJournalFromZip_def c2 s2)
qed

text \<open>Claim C6 at work on an archive with a directory and three candidates, two of
  them of the shortest length: the first of the two is read.\<close>

theorem journal_selection_witness:
  \<open>(\<exists>c pre post.
      parseJournalFromZip example_host
        \<lparr>file_name = ''export.zip'', file_text = Inr [],
         file_zip = Inr [(''photos/'', Inr []),
                         (''Export/Journal.json'', Inr ''{"entries":[1]}''),
                         (''journal.JSON'', Inr ''{"entries":[2]}''),
                         (''Journal.json'', Inr ''{"entries":[3]}'')]\<rparr>
        = read_journal example_host
            [(''photos/'', Inr []),
             (''Export/Journal.json'', Inr ''{"entries":[1]}''),
             (''journal.JSON'', Inr ''{"entries":[2]}''),
             (''Journal.json'', Inr ''{"entries":[3]}'')] c
      \<and> [''Export/Journal.json'', ''journal.JSON'', ''Journal.json''] = pre @ c # post
      \<and> (\<forall>d \<in> set pre. length c < length d)
      \<and> (\<forall>d \<in> set post. length c \<le> length d))
   \<and> parseJournalFromZip example_host
        \<lparr>file_name = ''export.zip'', file_text = Inr [],
         file_zip = Inr [(''photos/'', Inr []),
                         (''Export/Journal.json'', Inr ''{"entries":[1]}''),
                         (''journal.JSON'', Inr ''{"entries":[2]}''),
                         (''Journal.json'', Inr ''{"entries":[3]}'')]\<rparr>
      = Inr (JObj [(''entries'', JArr [JNum 2])])\<close>
proof -
  let ?files = \<open>[(''photos/'', Inr []),
                 (''Export/Journal.json'', Inr ''{"entries":[1]}''),
                 (''journal.JSON'', Inr ''{"entries":[2]}''),
                 (''Journal.json'', Inr ''{"entries":[3]}'')]
                :: (string \<times> (string + string)) list\<close>
  let ?f = "\<lparr>file_name = ''export.zip'', file_text = Inr [], file_zip = Inr ?files\<rparr>"
  have cs: "candidates_of (map fst ?files)
      = [''Export/Journal.json'', ''journal.JSON'', ''Journal.json'']"
    by code_simp
  have hyp: "file_zip ?f = Inr ?files \<and> candidates_of (map fst ?files) \<noteq> []"
    using cs by simp
  have run: "parseJournalFromZip example_host ?f = Inr (JObj [(''entries'', JArr [JNum 2])])"
    by code_simp
  show ?thesis
    using journal_selection [of ?f ?files example_host] hyp cs run by auto
qed

subsection \<open>The body of an entry\<close>

text \<open>
  Claim C7, as the specification states it: when the rich text parses, the body is the
  cleaned concatenation of the texts of the content parts. \<open>getEntryText\<close> trims the
  concatenation before it cleans it: with the parts \<open>" Hello"\<close> and \<open>" world "\<close> the
  cleaned concatenation begins and ends with a blank, and the body is \<open>Hello world\<close>.
\<close>

theorem getEntryText_untrimmed_counterexample:
  \<open>JSON_parse example_host ''{"contents":[{"text":" Hello"},{"text":" world "}]}''
     = Inr (JObj [(''contents'',
              JArr [JObj [(''text'', JStr '' Hello'')], JObj [(''text'', JStr '' world '')]])])
   \<and> cleanupText
        (concat (map part_text
           [JObj [(''text'', JStr '' Hello'')], JObj [(''text'', JStr '' world '')]]))
     = '' Hello world ''
   \<and> getEntryText example_host
        (JObj [(''text'', JStr []),
               (''richText'', JStr ''{"contents":[{"text":" Hello"},{"text":" world "}]}'')])
     = ''Hello world''\<close>
  by code_simp

text \<open>
  Claim C7, amended: the body follows the priority chain. If \<open>text\<close> is a string that
  is not empty after trimming, the body is its cleaned trimmed value. Otherwise, if
  \<open>richText\<close> is a string that is not blank and parses, and the texts of its content
  parts (a part without a text counts as the empty string), concatenated and trimmed, are
  not empty, the body is that trimmed concatenation, cleaned. If \<open>richText\<close> does not
  parse, or parses and gives no content, or is absent, blank or no string, the body is
  exactly \<open>[No content]\<close>. The two scenarios follow for every host whose \<open>JSON.parse\<close>
  reads the first text as the standard says and throws on \<open>not-json\<close>.
\<close>

theorem getEntryText_chain:
  \<open>(prop_of e ''text'' = Some (JStr t) \<and> trim t \<noteq> [] \<longrightarrow>
      getEntryText h e = cleanupText (trim t))
   \<and> ((\<forall>t. prop_of e ''text'' = Some (JStr t) \<longrightarrow> trim t = [])
       \<and> prop_of e ''richText'' = Some (JStr r) \<and> trim r \<noteq> []
       \<and> JSON_parse h r = Inr parsed
       \<and> prop_of parsed ''contents'' = Some (JArr parts)
       \<and> trim (concat (map part_text parts)) \<noteq> [] \<longrightarrow>
      getEntryText h e = cleanupText (trim (concat (map part_text parts))))
   \<and> ((\<forall>t. prop_of e ''text'' = Some (JStr t) \<longrightarrow> trim t = [])
       \<and> prop_of e ''richText'' = Some (JStr r) \<and> trim r \<noteq> []
       \<and> JSON_parse h r = Inl m \<longrightarrow>
      getEntryText h e = ''[No content]'')
   \<and> ((\<forall>t. prop_of e ''text'' = Some (JStr t) \<longrightarrow> trim t = [])
       \<and> prop_of e ''richText'' = Some (JStr r) \<and> trim r \<noteq> []
       \<and> JSON_parse h r = Inr parsed
       \<and> (\<forall>parts. prop_of parsed ''contents'' = Some (JArr parts) \<longrightarrow>
             trim (concat (map part_text parts)) = []) \<longrightarrow>
      getEntryText h e = ''[No content]'')
   \<and> ((\<forall>t. prop_of e ''text'' = Some (JStr t) \<longrightarrow> trim t = [])
       \<and> (\<forall>r. prop_of e ''richText'' = Some (JStr r) \<longrightarrow> trim r = []) \<longrightarrow>
      getEntryText h e = ''[No content]'')
   \<and> (JSON_parse h ''{"contents":[{"text":"Hello"},{"text":" world"}]}''
         = Inr (JObj [(''contents'',
                  JArr [JObj [(''text'', JStr ''Hello'')], JObj [(''text'', JStr '' world'')]])]) \<longrightarrow>
      getEntryText h
        (JObj [(''text'', JStr []),
               (''richText'', JStr ''{"contents":[{"text":"Hello"},{"text":" world"}]}'')])
        = ''Hello world'')
   \<and> (JSON_parse h ''not-json'' = Inl m \<longrightarrow>
      getEntryText h (JObj [(''text'', JStr []), (''richText'', JStr ''not-json'')])
        = ''[No content]'')\<close>
proof (intro conjI impI)
  assume "prop_of e ''text'' = Some (JStr t) \<and> trim t \<noteq> []"
  then show "getEntryText h e = cleanupText (trim t)"
    by (simp add: getEntryText_def)
next
  assume a: "(\<forall>t. prop_of e ''text'' = Some (JStr t) \<longrightarrow> trim t = [])
       \<and> prop_of e ''richText'' = Some (JStr r) \<and> trim r \<noteq> []
       \<and> JSON_parse h r = Inr parsed
       \<and> prop_of parsed ''contents'' = Some (JArr parts)
       \<and> trim (concat (map part_text parts)) \<noteq> []"
  then show "getEntryText h e = cleanupText (trim (concat (map part_text parts)))"
    by (auto simp: getEntryText_def Let_def trim_Nil split: option.splits json.splits)
next
  assume a: "(\<forall>t. prop_of e ''text'' = Some (JStr t) \<longrightarrow> trim t = [])
       \<and> prop_of e ''richText'' = Some (JStr r) \<and> trim r \<noteq> []
       \<and> JSON_parse h r = Inl m"
  then show "getEntryText h e = ''[No content]''"
    by (auto simp: getEntryText_def Let_def trim_Nil split: option.splits json.splits)
next
  assume a: "(\<forall>t. prop_of e ''text'' = Some (JStr t) \<longrightarrow> trim t = [])
       \<and> prop_of e ''richText'' = Some (JStr r) \<and> trim r \<noteq> []
       \<and> JSON_parse h r = Inr parsed
       \<and> (\<forall>parts. prop_of parsed ''contents'' = Some (JArr parts) \<longrightarrow>
             trim (concat (map part_text parts)) = [])"
  then show "getEntryText h e = ''[No content]''"
    by (auto simp: getEntryText_def Let_def trim_Nil split: option.splits json.splits)
next
  assume a: "(\<forall>t. prop_of e ''text'' = Some (JStr t) \<longrightarrow> trim t = [])
       \<and> (\<forall>r. prop_of e ''richText'' = Some (JStr r) \<longrightarrow> trim r = [])"
  then show "getEntryText h e = ''[No content]''"
    by (auto simp: getEntryText_def Let_def trim_Nil split: option.splits json.splits)
next
  assume p: \<open>JSON_parse h ''{"contents":[{"text":"Hello"},{"text":" world"}]}''
         = Inr (JObj [(''contents'',
                  JArr [JObj [(''text'', JStr ''Hello'')], JObj [(''text'', JStr '' world'')]])])\<close>
  have t2: \<open>trim ''{"contents":[{"text":"Hello"},{"text":" world"}]}'' \<noteq> []\<close>
    by code_simp
  have t3: "trim ''Hello world'' = ''Hello world''"
    by code_simp
  have t4: "cleanupText ''Hello world'' = ''Hello world''"
    by code_simp
  show \<open>getEntryText h
        (JObj [(''text'', JStr []),
               (''richText'', JStr ''{"contents":[{"text":"Hello"},{"text":" world"}]}'')])
        = ''Hello world''\<close>
    using t2 by (simp add: getEntryText_def p part_text_def trim_Nil t3 t4 del: cleanupText.simps)
next
  assume p: "JSON_parse h ''not-json'' = Inl m"
  have t2: "trim ''not-json'' \<noteq> []"
    by code_simp
  show "getEntryText h (JObj [(''text'', JStr []), (''richText'', JStr ''not-json'')])
        = ''[No content]''"
    using t2 by (simp add: getEntryText_def p trim_Nil)
qed

text \<open>Claim C7, the amended property at work, with the parser of the example host: a
  plain text with an escape and blanks around it; the two scenarios; a rich text whose
  parts give only a blank, beside a \<open>text\<close> that is a number; a blank text beside a
  \<open>richText\<close> that is null; a rich text with blanks around the texts of its parts and a
  part without a text; a rich text that breaks off.\<close>

theorem getEntryText_chain_witness:
  \<open>getEntryText example_host (JObj [(''text'', JStr (''  1'' @ [CHR 0x5C] @ ''. Done ''))])
     = ''1. Done''
   \<and> getEntryText example_host
        (JObj [(''text'', JStr []),
               (''richText'', JStr ''{"contents":[{"text":"Hello"},{"text":" world"}]}'')])
     = ''Hello world''
   \<and> getEntryText example_host (JObj [(''text'', JStr []), (''richText'', JStr ''not-json'')])
     = ''[No content]''
   \<and> getEntryText example_host
        (JObj [(''text'', JNum 5), (''richText'', JStr ''{"contents":[{"text":" "},{"id":1}]}'')])
     = ''[No content]''
   \<and> getEntryText example_host (JObj [(''text'', JStr '' ''), (''richText'', JNull)])
     = ''[No content]''
   \<and> getEntryText example_host
        (JObj [(''richText'', JStr ''{"contents":[{"text":" 1"},{},{"text":". Done "}]}'')])
     = ''1. Done''
   \<and> getEntryText example_host (JObj [(''richText'', JStr ''{"contents":['')])
     = ''[No content]''\<close>
proof -
  let ?e1 = "JObj [(''text'', JStr (''  1'' @ [CHR 0x5C] @ ''. Done ''))]"
  have "prop_of ?e1 ''text'' = Some (JStr (''  1'' @ [CHR 0x5C] @ ''. Done ''))
      \<and> trim (''  1'' @ [CHR 0x5C] @ ''. Done '') \<noteq> []"
    by code_simp
  then have "getEntryText example_host ?e1 = cleanupText (trim (''  1'' @ [CHR 0x5C] @ ''. Done ''))"
    using getEntryText_chain [THEN conjunct1, of ?e1 "''  1'' @ [CHR 0x5C] @ ''. Done ''" example_host]
    by blast
  moreover have "cleanupText (trim (''  1'' @ [CHR 0x5C] @ ''. Done '')) = ''1. Done''"
    by code_simp
  ultimately have c1: "getEntryText example_host ?e1 = ''1. Done''"
    by simp
  have \<open>JSON_parse example_host ''{"contents":[{"text":"Hello"},{"text":" world"}]}''
         = Inr (JObj [(''contents'',
                  JArr [JObj [(''text'', JStr ''Hello'')], JObj [(''text'', JStr '' world'')]])])\<close>
    by code_simp
  then have c2: \<open>getEntryText example_host
        (JObj [(''text'', JStr []),
               (''richText'', JStr ''{"contents":[{"text":"Hello"},{"text":" world"}]}'')])
     = ''Hello world''\<close>
    using getEntryText_chain [of _ _ example_host] by blast
  have "JSON_parse example_host ''not-json'' = Inl ''Unexpected token''"
    by code_simp
  then have c3: "getEntryText example_host
        (JObj [(''text'', JStr []), (''richText'', JStr ''not-json'')]) = ''[No content]''"
    using getEntryText_chain [of _ _ example_host] by blast
  let ?r4 = \<open>''{"contents":[{"text":" "},{"id":1}]}''\<close>
  let ?e4 = "JObj [(''text'', JNum 5), (''richText'', JStr ?r4)]"
  let ?p4 = "JObj [(''contents'', JArr [JObj [(''text'', JStr '' '')], JObj [(''id'', JNum 1)]])]"
  have p4: "JSON_parse example_host ?r4 = Inr ?p4"
    by code_simp
  have b4: "trim (concat (map part_text [JObj [(''text'', JStr '' '')], JObj [(''id'', JNum 1)]])) = []"
    by code_simp
  have r4: "trim ?r4 \<noteq> []"
    by code_simp
  have "(\<forall>t. prop_of ?e4 ''text'' = Some (JStr t) \<longrightarrow> trim t = [])
       \<and> prop_of ?e4 ''richText'' = Some (JStr ?r4) \<and> trim ?r4 \<noteq> []
       \<and> JSON_parse example_host ?r4 = Inr ?p4
       \<and> (\<forall>parts. prop_of ?p4 ''contents'' = Some (JArr parts) \<longrightarrow>
             trim (concat (map part_text parts)) = [])"
    using p4 b4 r4 by simp
  then have c4: "getEntryText example_host ?e4 = ''[No content]''"
    using getEntryText_chain [THEN conjunct2, THEN conjunct2, THEN conjunct2, THEN conjunct1,
        of ?e4 ?r4 example_host ?p4]
    by blast
  let ?e5 = "JObj [(''text'', JStr '' ''), (''richText'', JNull)]"
  have b5: "trim '' '' = []"
    by code_simp
  have "(\<forall>t. prop_of ?e5 ''text'' = Some (JStr t) \<longrightarrow> trim t = [])
       \<and> (\<forall>r. prop_of ?e5 ''richText'' = Some (JStr r) \<longrightarrow> trim r = [])"
    using b5 by simp
  then have c5: "getEntryText example_host ?e5 = ''[No content]''"
    using getEntryText_chain [THEN conjunct2, THEN conjunct2, THEN conjunct2, THEN conjunct2,
        THEN conjunct1, of ?e5 example_host]
    by blast
  let ?r6 = \<open>''{"contents":[{"text":" 1"},{},{"text":". Done "}]}''\<close>
  let ?e6 = "JObj [(''richText'', JStr ?r6)]"
  let ?parts6 = "[JObj [(''text'', JStr '' 1'')], JObj [], JObj [(''text'', JStr ''. Done '')]]"
  have p6: "JSON_parse example_host ?r6 = Inr (JObj [(''contents'', JArr ?parts6)])"
    by code_simp
  have r6: "trim ?r6 \<noteq> []"
    by code_simp
  have b6: "trim (concat (map part_text ?parts6)) = ''1. Done''"
    by code_simp
  have k6: "cleanupText ''1. Done'' = ''1. Done''"
    by code_simp
  have "(\<forall>t. prop_of ?e6 ''text'' = Some (JStr t) \<longrightarrow> trim t = [])
       \<and> prop_of ?e6 ''richText'' = Some (JStr ?r6) \<and> trim ?r6 \<noteq> []
       \<and> JSON_parse example_host ?r6 = Inr (JObj [(''contents'', JArr ?parts6)])
       \<and> prop_of (JObj [(''contents'', JArr ?parts6)]) ''contents'' = Some (JArr ?parts6)
       \<and> trim (concat (map part_text ?parts6)) \<noteq> []"
    using p6 r6 b6 by simp
  then have "getEntryText example_host ?e6 = cleanupText (trim (concat (map part_text ?parts6)))"
    using getEntryText_chain [THEN conjunct2, THEN conjunct1,
        of ?e6 ?r6 example_host "JObj [(''contents'', JArr ?parts6)]" ?parts6]
    by blast
  then have c6: "getEntryText example_host ?e6 = ''1. Done''"
    by (simp only: b6 k6)
  let ?r7 = \<open>''{"contents":[''\<close>
  let ?e7 = "JObj [(''richText'', JStr ?r7)]"
  have p7: "JSON_parse example_host ?r7 = Inl ''Unexpected token''"
    by code_simp
  have r7: "trim ?r7 \<noteq> []"
    by code_simp
  have "(\<forall>t. prop_of ?e7 ''text'' = Some (JStr t) \<longrightarrow> trim t = [])
       \<and> prop_of ?e7 ''richText'' = Some (JStr ?r7) \<and> trim ?r7 \<noteq> []
       \<and> JSON_parse example_host ?r7 = Inl ''Unexpected token''"
    using p7 r7 by simp
  then have c7: "getEntryText example_host ?e7 = ''[No content]''"
    using getEntryText_chain [THEN conjunct2, THEN conjunct2, THEN conjunct1,
        of ?e7 ?r7 example_host "''Unexpected token''"]
    by blast
  show ?thesis
    using c1 c2 c3 c4 c5 c6 c7 by blast
qed

subsection \<open>Failed conversions\<close>

text \<open>
  Claim C8: every error that ends a conversion resets the output of the session. The
  unsupported file type is rejected before the \<open>try\<close> block; every other error (no
  journal in the archive, a document that does not parse, no entries, an empty rendered
  text) is an exception \<open>e\<close> of the \<open>try\<close> block. In both cases the session after
  \<open>processFile\<close> has an empty \<open>currentMarkdown\<close>, an empty preview, an empty \<open>meta\<close>
  line, both buttons disabled and the status of an error, whatever output the session had
  before. A conversion that succeeds stores its Markdown text.
\<close>

theorem failure_resets_output:
  "(\<not> endsWith (toLowerCase (file_name f)) ''.json'' \<and> \<not> endsWith (toLowerCase (file_name f)) ''.zip''
      \<or> convert h f (endsWith (toLowerCase (file_name f)) ''.json'') = Inl e \<longrightarrow>
        currentMarkdown (processFile h s f) = []
        \<and> preview_value (processFile h s f) = []
        \<and> meta_textContent (processFile h s f) = []
        \<and> copyBtn_disabled (processFile h s f)
        \<and> downloadBtn_disabled (processFile h s f)
        \<and> statusText_className (processFile h s f) = ''status-text error'')
   \<and> ((endsWith (toLowerCase (file_name f)) ''.json'' \<or> endsWith (toLowerCase (file_name f)) ''.zip'')
       \<and> convert h f (endsWith (toLowerCase (file_name f)) ''.json'') = Inr (entries, markdown) \<longrightarrow>
        currentMarkdown (processFile h s f) = markdown
        \<and> preview_value (processFile h s f) = markdown
        \<and> statusText_className (processFile h s f) = ''status-text success'')"
proof (intro conjI impI)
  assume "\<not> endsWith (toLowerCase (file_name f)) ''.json'' \<and> \<not> endsWith (toLowerCase (file_name f)) ''.zip''
      \<or> convert h f (endsWith (toLowerCase (file_name f)) ''.json'') = Inl e"
  then consider
      (unsupported) "\<not> endsWith (toLowerCase (file_name f)) ''.json''"
        "\<not> endsWith (toLowerCase (file_name f)) ''.zip''"
    | (thrown) "endsWith (toLowerCase (file_name f)) ''.json'' \<or> endsWith (toLowerCase (file_name f)) ''.zip''"
        "convert h f (endsWith (toLowerCase (file_name f)) ''.json'') = Inl e"
    by blast
  then have "\<exists>s0 m. processFile h s f = setError (setNoOutput s0) m"
  proof cases
    case unsupported
    then show ?thesis using processFile_unsupported by blast
  next
    case thrown
    then show ?thesis using processFile_failure by blast
  qed
  then obtain s0 m where p: "processFile h s f = setError (setNoOutput s0) m"
    by blast
  show "currentMarkdown (processFile h s f) = []"
    and "preview_value (processFile h s f) = []"
    and "meta_textContent (processFile h s f) = []"
    and "copyBtn_disabled (processFile h s f)"
    and "downloadBtn_disabled (processFile h s f)"
    and "statusText_className (processFile h s f) = ''status-text error''"
    by (simp_all add: p setError_def setNoOutput_def)
next
  assume a: "(endsWith (toLowerCase (file_name f)) ''.json'' \<or> endsWith (toLowerCase (file_name f)) ''.zip'')
       \<and> convert h f (endsWith (toLowerCase (file_name f)) ''.json'') = Inr (entries, markdown)"
  then obtain first last_header where p: "processFile h s f =
           (setSuccess
              ((setProcessing s ''Processing file...'')
                 \<lparr>currentMarkdown := markdown, preview_value := markdown,
                  copyBtn_disabled := False, downloadBtn_disabled := False\<rparr>)
              (''Done. '' @ String_of (int (length entries)) @ '' entries converted.''))
             \<lparr>meta_textContent :=
                ''Range: '' @ first @ '' to '' @ last_header
                  @ '' (UTC). Processed locally in your browser.''\<rparr>"
    using processFile_success [of f h entries markdown s] by blast
  show "currentMarkdown (processFile h s f) = markdown"
    and "preview_value (processFile h s f) = markdown"
    and "statusText_className (processFile h s f) = ''status-text success''"
    by (simp_all add: p setSuccess_def setProcessing_def)
qed

text \<open>Claim C8 at work on a session that holds the output of an earlier conversion: a
  file \<open>notes.txt\<close>, an archive without a journal, a document that does not parse and a
  document without entries each leave \<open>currentMarkdown\<close> empty; a good document
  replaces it.\<close>

theorem failure_resets_output_witness:
  \<open>currentMarkdown (processFile example_host stale_session
      \<lparr>file_name = ''notes.txt'', file_text = Inr ''hello'', file_zip = Inl ''not a zip''\<rparr>) = []
   \<and> currentMarkdown (processFile example_host stale_session
      \<lparr>file_name = ''Export.ZIP'', file_text = Inr [],
       file_zip = Inr [(''photos/a.jpg'', Inr ''jpeg'')]\<rparr>) = []
   \<and> currentMarkdown (processFile example_host stale_session
      \<lparr>file_name = ''Journal.json'', file_text = Inr ''not-json'', file_zip = Inl ''not a zip''\<rparr>) = []
   \<and> currentMarkdown (processFile example_host stale_session
      \<lparr>file_name = ''Journal.json'', file_text = Inr ''{"entries":[]}'',
       file_zip = Inl ''not a zip''\<rparr>) = []
   \<and> currentMarkdown (processFile example_host stale_session
      \<lparr>file_name = ''Journal.json'',
       file_text = Inr ''{"entries":[{"creationDate":"2023-05-01T14:03:09Z","text":"Hi"}]}'',
       file_zip = Inl ''not a zip''\<rparr>)
     = ''# 2023-05-01 14-03-09'' @ [CHR 0x0A, CHR 0x0A] @ ''Hi''\<close>
proof -
  let ?f1 = "\<lparr>file_name = ''notes.txt'', file_text = Inr ''hello'', file_zip = Inl ''not a zip''\<rparr>"
  let ?f2 = "\<lparr>file_name = ''Export.ZIP'', file_text = Inr [],
       file_zip = Inr [(''photos/a.jpg'', Inr ''jpeg'')]\<rparr>"
  let ?f3 = "\<lparr>file_name = ''Journal.json'', file_text = Inr ''not-json'',
       file_zip = Inl ''not a zip''\<rparr>"
  let ?f4 = \<open>\<lparr>file_name = ''Journal.json'', file_text = Inr ''{"entries":[]}'',
       file_zip = Inl ''not a zip''\<rparr>\<close>
  let ?f5 = \<open>\<lparr>file_name = ''Journal.json'',
       file_text = Inr ''{"entries":[{"creationDate":"2023-05-01T14:03:09Z","text":"Hi"}]}'',
       file_zip = Inl ''not a zip''\<rparr>\<close>
  let ?md = "''# 2023-05-01 14-03-09'' @ [CHR 0x0A, CHR 0x0A] @ ''Hi''"
  have n1: "\<not> endsWith (toLowerCase (file_name ?f1)) ''.json''
      \<and> \<not> endsWith (toLowerCase (file_name ?f1)) ''.zip''"
    by code_simp
  have r1: "currentMarkdown (processFile example_host stale_session ?f1) = []"
    using failure_resets_output [where f = "?f1" and h = example_host and s = stale_session] n1 by blast
  have n2: "convert example_host ?f2 (endsWith (toLowerCase (file_name ?f2)) ''.json'')
      = Inl (Error ''No Journal.json found in zip export'')"
    by code_simp
  have r2: "currentMarkdown (processFile example_host stale_session ?f2) = []"
    using failure_resets_output [where f = "?f2" and h = example_host and s = stale_session] n2 by blast
  have n3: "convert example_host ?f3 (endsWith (toLowerCase (file_name ?f3)) ''.json'')
      = Inl (SyntaxError ''Unexpected token'')"
    by code_simp
  have r3: "currentMarkdown (processFile example_host stale_session ?f3) = []"
    using failure_resets_output [where f = "?f3" and h = example_host and s = stale_session] n3 by blast
  have n4: "convert example_host ?f4 (endsWith (toLowerCase (file_name ?f4)) ''.json'')
      = Inl (Error ''No entries found in Journal.json'')"
    by code_simp
  have r4: "currentMarkdown (processFile example_host stale_session ?f4) = []"
    using failure_resets_output [where f = "?f4" and h = example_host and s = stale_session] n4 by blast
  have n5: "endsWith (toLowerCase (file_name ?f5)) ''.json''"
    by code_simp
  have c5: "convert example_host ?f5 (endsWith (toLowerCase (file_name ?f5)) ''.json'')
      = Inr ([JObj [(''creationDate'', JStr ''2023-05-01T14:03:09Z''), (''text'', JStr ''Hi'')]],
             ?md)"
    by code_simp
  have r5: "currentMarkdown (processFile example_host stale_session ?f5) = ?md"
    using failure_resets_output [where f = "?f5" and h = example_host and s = stale_session] n5 c5 by blast
  show ?thesis
    using r1 r2 r3 r4 r5 by blast
qed

subsection \<open>The rendered text is never blank\<close>

text \<open>
  Claim C9: for a list of entries that is not empty, the text that \<open>toMarkdown\<close> returns
  is never white space only: every rendered block begins with the \<open>#\<close> of its header,
  and the body of an entry is never empty, since it falls back to the placeholder. So the
  conversion never throws the error of the empty rendered output.
\<close>

theorem rendered_output_not_blank:
  "(entries \<noteq> [] \<and> toMarkdown h entries = Inr markdown \<longrightarrow> trim markdown \<noteq> [])
   \<and> (section_of h e = Inr s \<longrightarrow> (\<exists>t. s = CHR ''#'' # t))
   \<and> getEntryText h e \<noteq> []
   \<and> convert h f isJson \<noteq> Inl (Error ''Could not build markdown output from entries'')"
proof (intro conjI impI)
  assume "entries \<noteq> [] \<and> toMarkdown h entries = Inr markdown"
  then obtain t where "markdown = CHR ''#'' # t"
    using toMarkdown_hash by blast
  then show "trim markdown \<noteq> []"
    using trim_Cons_nonwhite [OF hash_not_white, of t] by auto
next
  assume "section_of h e = Inr s"
  then show "\<exists>t. s = CHR ''#'' # t" by (rule section_of_hash)
next
  show "getEntryText h e \<noteq> []" by (rule getEntryText_nonempty)
next
  show "convert h f isJson \<noteq> Inl (Error ''Could not build markdown output from entries'')"
  proof
    assume a: "convert h f isJson = Inl (Error ''Could not build markdown output from entries'')"
    then obtain journal where j: "journal_of h f isJson = Inr journal"
      using journal_of_Error [of h f isJson]
      by (cases "journal_of h f isJson") (auto simp: convert_def)
    have ne: "entries_of journal \<noteq> []"
      using a j by (auto simp: convert_def Let_def split: if_splits)
    then obtain markdown where m: "toMarkdown h (entries_of journal) = Inr markdown"
      and b: "trim markdown = []"
      using a j toMarkdown_error [of h "entries_of journal"]
      by (cases "toMarkdown h (entries_of journal)")
         (auto simp: convert_def Let_def split: if_splits)
    obtain t where "markdown = CHR ''#'' # t"
      using toMarkdown_hash [OF ne m] by blast
    then show False
      using b trim_Cons_nonwhite [OF hash_not_white, of t] by auto
  qed
qed

text \<open>Claim C9 at work on a journal with one entry, whose text is a single space: the
  body is the placeholder.\<close>

theorem rendered_output_not_blank_witness:
  "toMarkdown example_host [JObj [(''text'', JStr '' '')]]
     = Inr (''# 1970-01-01 00-00-00'' @ [CHR 0x0A, CHR 0x0A] @ ''[No content]'')
   \<and> trim (''# 1970-01-01 00-00-00'' @ [CHR 0x0A, CHR 0x0A] @ ''[No content]'') \<noteq> []
   \<and> section_of example_host (JObj [(''text'', JStr '' '')])
     = Inr (''# 1970-01-01 00-00-00'' @ [CHR 0x0A, CHR 0x0A] @ ''[No content]'')
   \<and> (\<exists>t. ''# 1970-01-01 00-00-00'' @ [CHR 0x0A, CHR 0x0A] @ ''[No content]'' = CHR ''#'' # t)"
proof -
  let ?e = "JObj [(''text'', JStr '' '')]"
  let ?md = "''# 1970-01-01 00-00-00'' @ [CHR 0x0A, CHR 0x0A] @ ''[No content]''"
  have m: "toMarkdown example_host [?e] = Inr ?md"
    by code_simp
  have s: "section_of example_host ?e = Inr ?md"
    by code_simp
  have "[?e] \<noteq> [] \<and> toMarkdown example_host [?e] = Inr ?md"
    using m by simp
  then have t: "trim ?md \<noteq> []"
    using rendered_output_not_blank [of "[?e]" example_host ?md] by blast
  have "\<exists>t. ?md = CHR ''#'' # t"
    using rendered_output_not_blank [where h = example_host and e = "?e" and s = "?md"] s
    by blast
  then show ?thesis
    using m s t by blast
qed

subsection \<open>Documents without an array of entries\<close>

text \<open>
  Claim C10: a document that parses and whose \<open>entries\<close> field is missing, null or not
  an array is treated like a document with no entries. In both cases the entries are the
  empty list and the conversion throws the error \<open>No entries found in Journal.json\<close>,
  which is an \<open>Error\<close> of the program and not the \<open>SyntaxError\<close> of a document that
  does not parse; \<open>processFile\<close> ends with that message in the status line.
\<close>

theorem entries_not_an_array:
  "(journal_of h f isJson = Inr journal \<and> (\<forall>es. prop_of journal ''entries'' \<noteq> Some (JArr es)) \<longrightarrow>
      entries_of journal = []
      \<and> convert h f isJson = Inl (Error ''No entries found in Journal.json''))
   \<and> (journal_of h f isJson = Inr journal \<and> prop_of journal ''entries'' = Some (JArr []) \<longrightarrow>
      entries_of journal = []
      \<and> convert h f isJson = Inl (Error ''No entries found in Journal.json''))
   \<and> ((endsWith (toLowerCase (file_name f)) ''.json'' \<or> endsWith (toLowerCase (file_name f)) ''.zip'')
       \<and> journal_of h f (endsWith (toLowerCase (file_name f)) ''.json'') = Inr journal
       \<and> entries_of journal = [] \<longrightarrow>
      processFile h s f =
        setError (setNoOutput (setProcessing s ''Processing file...''))
          ''No entries found in Journal.json'')"
proof (intro conjI impI)
  assume a: "journal_of h f isJson = Inr journal \<and> (\<forall>es. prop_of journal ''entries'' \<noteq> Some (JArr es))"
  then show "entries_of journal = []"
    by (auto simp: entries_of_def split: option.splits json.splits)
  then show "convert h f isJson = Inl (Error ''No entries found in Journal.json'')"
    using a convert_no_entries by blast
next
  assume a: "journal_of h f isJson = Inr journal \<and> prop_of journal ''entries'' = Some (JArr [])"
  then show "entries_of journal = []"
    by (simp add: entries_of_def)
  then show "convert h f isJson = Inl (Error ''No entries found in Journal.json'')"
    using a convert_no_entries by blast
next
  assume a: "(endsWith (toLowerCase (file_name f)) ''.json'' \<or> endsWith (toLowerCase (file_name f)) ''.zip'')
       \<and> journal_of h f (endsWith (toLowerCase (file_name f)) ''.json'') = Inr journal
       \<and> entries_of journal = []"
  then have "convert h f (endsWith (toLowerCase (file_name f)) ''.json'')
      = Inl (Error ''No entries found in Journal.json'')"
    using convert_no_entries by blast
  then show "processFile h s f =
        setError (setNoOutput (setProcessing s ''Processing file...''))
          ''No entries found in Journal.json''"
    using a processFile_failure [of f h _ s] by simp
qed

text \<open>Claim C10 at work: documents without \<open>entries\<close>, with \<open>entries\<close> null and with
  \<open>entries\<close> an object end like the document with the empty array.\<close>

theorem entries_not_an_array_witness:
  \<open>convert example_host
      \<lparr>file_name = ''Journal.json'', file_text = Inr ''{"metadata":{"version":"1.0"}}'',
       file_zip = Inl []\<rparr> True
     = Inl (Error ''No entries found in Journal.json'')
   \<and> convert example_host
      \<lparr>file_name = ''Journal.json'', file_text = Inr ''{"entries":null}'', file_zip = Inl []\<rparr> True
     = Inl (Error ''No entries found in Journal.json'')
   \<and> convert example_host
      \<lparr>file_name = ''Journal.json'', file_text = Inr ''{"entries":{"0":"a"}}'',
       file_zip = Inl []\<rparr> True
     = Inl (Error ''No entries found in Journal.json'')
   \<and> convert example_host
      \<lparr>file_name = ''Journal.json'', file_text = Inr ''{"entries":[]}'', file_zip = Inl []\<rparr> True
     = Inl (Error ''No entries found in Journal.json'')
   \<and> processFile example_host stale_session
      \<lparr>file_name = ''Journal.json'', file_text = Inr ''{"entries":null}'', file_zip = Inl []\<rparr>
     = setError (setNoOutput (setProcessing stale_session ''Processing file...''))
         ''No entries found in Journal.json''\<close>
proof -
  let ?f1 = \<open>\<lparr>file_name = ''Journal.json'', file_text = Inr ''{"metadata":{"version":"1.0"}}'',
       file_zip = Inl []\<rparr>\<close>
  let ?j1 = "JObj [(''metadata'', JObj [(''version'', JStr ''1.0'')])]"
  let ?f2 = \<open>\<lparr>file_name = ''Journal.json'', file_text = Inr ''{"entries":null}'',
       file_zip = Inl []\<rparr>\<close>
  let ?j2 = "JObj [(''entries'', JNull)]"
  let ?f3 = \<open>\<lparr>file_name = ''Journal.json'', file_text = Inr ''{"entries":{"0":"a"}}'',
       file_zip = Inl []\<rparr>\<close>
  let ?j3 = "JObj [(''entries'', JObj [(''0'', JStr ''a'')])]"
  let ?f4 = \<open>\<lparr>file_name = ''Journal.json'', file_text = Inr ''{"entries":[]}'',
       file_zip = Inl []\<rparr>\<close>
  let ?j4 = "JObj [(''entries'', JArr [])]"
  have j1: "journal_of example_host ?f1 True = Inr ?j1"
    by code_simp
  then have c1: "convert example_host ?f1 True = Inl (Error ''No entries found in Journal.json'')"
    using entries_not_an_array [where h = example_host and f = "?f1"
        and isJson = True and journal = "?j1", THEN conjunct1] by simp
  have j2: "journal_of example_host ?f2 True = Inr ?j2"
    by code_simp
  then have c2: "convert example_host ?f2 True = Inl (Error ''No entries found in Journal.json'')"
    using entries_not_an_array [where h = example_host and f = "?f2"
        and isJson = True and journal = "?j2", THEN conjunct1] by simp
  have j3: "journal_of example_host ?f3 True = Inr ?j3"
    by code_simp
  then have c3: "convert example_host ?f3 True = Inl (Error ''No entries found in Journal.json'')"
    using entries_not_an_array [where h = example_host and f = "?f3"
        and isJson = True and journal = "?j3", THEN conjunct1] by simp
  have j4: "journal_of example_host ?f4 True = Inr ?j4"
    by code_simp
  then have c4: "convert example_host ?f4 True = Inl (Error ''No entries found in Journal.json'')"
    using entries_not_an_array [where h = example_host and f = "?f4"
        and isJson = True and journal = "?j4", THEN conjunct2, THEN conjunct1]
    by simp
  have n: "endsWith (toLowerCase (file_name ?f2)) ''.json''"
    by code_simp
  have e2: "entries_of ?j2 = []"
    using entries_not_an_array [where h = example_host and f = "?f2"
        and isJson = True and journal = "?j2", THEN conjunct1] j2 by simp
  have p: "processFile example_host stale_session ?f2
     = setError (setNoOutput (setProcessing stale_session ''Processing file...''))
         ''No entries found in Journal.json''"
    using entries_not_an_array [where h = example_host
        and f = "?f2" and journal = "?j2" and s = stale_session, THEN conjunct2, THEN conjunct2] n j2 e2
    by simp
  show ?thesis
    using c1 c2 c3 c4 p by blast
qed

subsection \<open>Three scenarios\<close>

text \<open>
  The header format: a value that the host reads as the instant 2023-05-01T14:03:09Z is
  rendered as \<open>2023-05-01 14-03-09\<close>.
\<close>

theorem formatTimestamp_known_instant:
  assumes "truthy v" and "\<not> date_throws v" and "Date_new h v = Some 1682949789000"
  shows "formatTimestamp h v = Inr ''2023-05-01 14-03-09''"
proof -
  have "format_utc 1682949789000 = ''2023-05-01 14-03-09''"
    by code_simp
  then show ?thesis
    using assms by (simp add: formatTimestamp_truthy)
qed

text \<open>The header format at work on the date string of an export.\<close>

theorem formatTimestamp_known_instant_witness:
  "formatTimestamp example_host (Some (JStr ''2023-05-01T14:03:09Z''))
     = Inr ''2023-05-01 14-03-09''"
proof -
  have "Date_new example_host (Some (JStr ''2023-05-01T14:03:09Z'')) = Some 1682949789000"
    by code_simp
  then show ?thesis
    using formatTimestamp_known_instant [of "Some (JStr ''2023-05-01T14:03:09Z'')" example_host]
    by simp
qed

text \<open>
  The rejection: a file named \<open>notes.txt\<close> is rejected as an unsupported file type,
  whatever it holds and whatever the host: neither its text nor its archive is read.
\<close>

theorem notes_txt_rejected:
  "processFile h s \<lparr>file_name = ''notes.txt'', file_text = t, file_zip = z\<rparr>
     = setError (setNoOutput s) ''Unsupported file type. Use Day One .zip or Journal.json''"
proof -
  have "\<not> endsWith (toLowerCase ''notes.txt'') ''.json''"
    and "\<not> endsWith (toLowerCase ''notes.txt'') ''.zip''"
    by code_simp+
  then show ?thesis
    by (simp add: processFile_unsupported)
qed

text \<open>
  The archive without a journal: when no name of the archive ends with
  \<open>journal.json\<close>, \<open>parseJournalFromZip\<close> throws the error of the missing journal.
\<close>

theorem journal_not_found:
  assumes "file_zip f = Inr files" and "candidates_of (map fst files) = []"
  shows "parseJournalFromZip h f = Inl (Error ''No Journal.json found in zip export'')"
  using assms by (simp add: parseJournalFromZip_def)

text \<open>The archive without a journal, at work on an archive of two pictures and a file
  whose name has the suffix only in part.\<close>

theorem journal_not_found_witness:
  "parseJournalFromZip example_host
     \<lparr>file_name = ''export.zip'', file_text = Inr [],
      file_zip = Inr [(''photos/a.jpg'', Inr ''a''), (''photos/b.jpg'', Inr ''b''),
                      (''journal.json.bak'', Inr ''{}'')]\<rparr>
   = Inl (Error ''No Journal.json found in zip export'')"
proof -
  let ?files = "[(''photos/a.jpg'', Inr ''a''), (''photos/b.jpg'', Inr ''b''),
                 (''journal.json.bak'', Inr ''{}'')] :: (string \<times> (string + string)) list"
  have "candidates_of (map fst ?files) = []"
    by code_simp
  then show ?thesis
    using journal_not_found [of "\<lparr>file_name = ''export.zip'', file_text = Inr [],
      file_zip = Inr ?files\<rparr>" ?files example_host]
    by simp
qed


end
